theory Spec2Isabelle
  imports Complex_Main "HOL-Library.Multiset"
begin

section \<open>Tables\<close>

text \<open>
  A table cell is a string, a number or the missing value. Numbers are rationals: the
  sums and quotients of the program are taken exactly, where the program rounds them to
  the nearest double.
\<close>

datatype cell = Str string | Num rat | NaN

datatype error = KeyError | ValueError | IndexError | OSError | DataError

text \<open>
  A data frame has its row labels and its columns, each a name with one cell per row,
  in their order.
\<close>

record dataframe =
  df_index :: "nat list"
  df_columns :: "(string \<times> cell list) list"

definition column_names :: "dataframe \<Rightarrow> string list" where
  "column_names df = map fst (df_columns df)"

text \<open>\<^verbatim>\<open>df[name]\<close>: the column, or a key error.\<close>

definition getitem :: "dataframe \<Rightarrow> string \<Rightarrow> error + cell list" where
  "getitem df name =
     (case map_of (df_columns df) name of None \<Rightarrow> Inl KeyError | Some col \<Rightarrow> Inr col)"

text \<open>
  \<^verbatim>\<open>df[name] = values\<close>: a column of that name is replaced where it stands, a new
  one is added last.
\<close>

fun set_column :: "(string \<times> cell list) list \<Rightarrow> string \<Rightarrow> cell list \<Rightarrow> (string \<times> cell list) list" where
  "set_column [] name col = [(name, col)]"
| "set_column ((k, v) # cols) name col =
     (if k = name then (name, col) # cols else (k, v) # set_column cols name col)"

definition setitem :: "dataframe \<Rightarrow> string \<Rightarrow> cell list \<Rightarrow> dataframe" where
  "setitem df name col = df\<lparr>df_columns := set_column (df_columns df) name col\<rparr>"

section \<open>import_data\<close>

text \<open>The function applied to every status: \<^verbatim>\<open>lambda val: 0 if val == "Existing Customer" else 1\<close>.\<close>

definition churn_flag :: "cell \<Rightarrow> cell" where
  "churn_flag val = (if val = Str ''Existing Customer'' then Num 0 else Num 1)"

text \<open>
  \<^verbatim>\<open>pd.read_csv\<close> is the parameter \<open>read_csv\<close>: the parsed file at a path, or the
  error of reading it.
\<close>

definition import_data :: "(string \<Rightarrow> error + dataframe) \<Rightarrow> string \<Rightarrow> error + dataframe" where
  "import_data read_csv pth =
     (case read_csv pth of
        Inl e \<Rightarrow> Inl e
      | Inr df_data \<Rightarrow>
          (case getitem df_data ''Attrition_Flag'' of
             Inl e \<Rightarrow> Inl e
           | Inr flags \<Rightarrow> Inr (setitem df_data ''Churn'' (map churn_flag flags))))"

section \<open>encoder_helper\<close>

text \<open>
  Data frames are objects: a variable holds a reference into a store, and an assignment
  \<^verbatim>\<open>df[name] = values\<close> changes the object every holder of the reference sees.
  \<^verbatim>\<open>dataframe.copy(deep=True)\<close> allocates a new object with the same rows and columns.
\<close>

type_synonym ref = nat
type_synonym store = "dataframe list"

definition copy_deep :: "store \<Rightarrow> ref \<Rightarrow> ref \<times> store" where
  "copy_deep s r = (length s, s @ [s ! r])"

fun numbers :: "cell list \<Rightarrow> rat list" where
  "numbers [] = []"
| "numbers (Num x # cs) = x # numbers cs"
| "numbers (c # cs) = numbers cs"

text \<open>The mean of a group skips missing values; a group with no number has none.\<close>

definition mean :: "cell list \<Rightarrow> cell" where
  "mean cs =
     (case numbers cs of
        [] \<Rightarrow> NaN
      | x # xs \<Rightarrow> Num (sum_list (x # xs) / of_nat (length (x # xs))))"

fun is_text :: "cell \<Rightarrow> bool" where
  "is_text (Str v) = True"
| "is_text c = False"

definition numeric :: "cell list \<Rightarrow> bool" where
  "numeric cs = (filter is_text cs = [])"

text \<open>The values of the rows whose key is \<open>k\<close>.\<close>

definition group_rows :: "cell list \<Rightarrow> cell list \<Rightarrow> cell \<Rightarrow> cell list" where
  "group_rows keys vals k = map snd (filter (\<lambda>kv. fst kv = k) (zip keys vals))"

text \<open>
  \<^verbatim>\<open>encoder_df.groupby(category).mean()['Churn']\<close>, in the pandas the module was
  written for (1.x): the rows are grouped by the value of the category column, rows
  whose value is missing fall in no group, the grouping column becomes the index of the
  result and is no column of it, and a column that holds text is left out of the means.
  With no numeric column left the mean raises pandas' \<open>DataError\<close>. Otherwise
  \<^verbatim>\<open>['Churn']\<close> is a key error when the table is grouped by \<open>Churn\<close> itself, has no
  \<open>Churn\<close> column, or has one that holds text. The result maps each group's key to the
  mean of \<open>Churn\<close> in the group; pandas orders the keys, which a lookup by key does not
  observe. The type of a column is read off its cells: it is numeric when none is text.
\<close>

definition groupby_mean_churn :: "dataframe \<Rightarrow> string \<Rightarrow> error + (cell \<times> cell) list" where
  "groupby_mean_churn df category =
     (case getitem df category of
        Inl e \<Rightarrow> Inl e
      | Inr keys \<Rightarrow>
          if filter (\<lambda>nc. fst nc \<noteq> category \<and> numeric (snd nc)) (df_columns df) = []
          then Inl DataError
          else if category = ''Churn'' then Inl KeyError
          else (case getitem df ''Churn'' of
                  Inl e \<Rightarrow> Inl e
                | Inr churn \<Rightarrow>
                    if \<not> numeric churn then Inl KeyError
                    else Inr (map (\<lambda>k. (k, mean (group_rows keys churn k)))
                                (remdups (filter (\<lambda>k. k \<noteq> NaN) keys)))))"

text \<open>\<^verbatim>\<open>column_groups.loc[val]\<close>: the mean of the group of that key, or a key error.\<close>

definition loc :: "(cell \<times> cell) list \<Rightarrow> cell \<Rightarrow> error + cell" where
  "loc column_groups val =
     (case map_of column_groups val of None \<Rightarrow> Inl KeyError | Some m \<Rightarrow> Inr m)"

text \<open>The inner loop: one lookup per row, in row order; the first failing lookup raises.\<close>

fun lookup_rows :: "(cell \<times> cell) list \<Rightarrow> cell list \<Rightarrow> error + cell list" where
  "lookup_rows column_groups [] = Inr []"
| "lookup_rows column_groups (val # vals) =
     (case loc column_groups val of
        Inl e \<Rightarrow> Inl e
      | Inr m \<Rightarrow>
          (case lookup_rows column_groups vals of
             Inl e \<Rightarrow> Inl e
           | Inr column_lst \<Rightarrow> Inr (m # column_lst)))"

definition encode_column :: "dataframe \<Rightarrow> string \<Rightarrow> error + cell list" where
  "encode_column df category =
     (case groupby_mean_churn df category of
        Inl e \<Rightarrow> Inl e
      | Inr column_groups \<Rightarrow>
          (case getitem df category of
             Inl e \<Rightarrow> Inl e
           | Inr vals \<Rightarrow> lookup_rows column_groups vals))"

text \<open>The name of the column an encoding is written to: \<^verbatim>\<open>if response: ... else: ...\<close>.\<close>

definition encoded_name :: "string \<Rightarrow> string \<Rightarrow> string" where
  "encoded_name category response =
     (if response \<noteq> [] then category @ ''_'' @ response else category)"

text \<open>
  No category of the list is named like the column that the pass of a category before
  it writes: every pass then reads a column of the input table, or its own encoding.
\<close>

fun later_categories_fresh :: "string \<Rightarrow> string list \<Rightarrow> bool" where
  "later_categories_fresh response [] = True"
| "later_categories_fresh response (category # rest) =
     (encoded_name category response \<notin> set rest \<and> later_categories_fresh response rest)"

text \<open>
  The outer loop works on the object \<open>encoder_df\<close> of the store. An exception leaves
  the loop with the store as it then is.
\<close>

fun encoder_loop :: "store \<Rightarrow> ref \<Rightarrow> string list \<Rightarrow> string \<Rightarrow> error option \<times> store" where
  "encoder_loop s encoder_df [] response = (None, s)"
| "encoder_loop s encoder_df (category # rest) response =
     (case encode_column (s ! encoder_df) category of
        Inl e \<Rightarrow> (Some e, s)
      | Inr column_lst \<Rightarrow>
          encoder_loop
            (s[encoder_df := setitem (s ! encoder_df) (encoded_name category response) column_lst])
            encoder_df rest response)"

definition encoder_helper :: "store \<Rightarrow> ref \<Rightarrow> string list \<Rightarrow> string \<Rightarrow> (error + ref) \<times> store" where
  "encoder_helper s dataframe category_lst response =
     (case copy_deep s dataframe of
        (encoder_df, s1) \<Rightarrow>
          (case encoder_loop s1 encoder_df category_lst response of
             (Some e, s2) \<Rightarrow> (Inl e, s2)
           | (None, s2) \<Rightarrow> (Inr encoder_df, s2)))"

text \<open>
  The arithmetic mean of \<open>Churn\<close> over the rows whose category value is \<open>v\<close>, as the
  specification words it.
\<close>

definition churn_mean_of :: "cell list \<Rightarrow> cell list \<Rightarrow> cell \<Rightarrow> rat" where
  "churn_mean_of keys churn v =
     sum_list (numbers (group_rows keys churn v)) / of_nat (length (group_rows keys churn v))"

text \<open>Tables as pandas builds them: distinct column names, one cell per row in every column.\<close>

definition wf_dataframe :: "dataframe \<Rightarrow> bool" where
  "wf_dataframe df =
     (distinct (column_names df) \<and>
      list_all (\<lambda>nc. length (snd nc) = length (df_index df)) (df_columns df))"

definition is_number :: "cell \<Rightarrow> bool" where
  "is_number c = (case c of Num x \<Rightarrow> True | _ \<Rightarrow> False)"

definition num_of :: "cell \<Rightarrow> rat" where
  "num_of c = (case c of Num x \<Rightarrow> x | _ \<Rightarrow> 0)"

text \<open>Every row mapped to the mean of its group.\<close>

definition mean_encoding :: "cell list \<Rightarrow> cell list \<Rightarrow> cell list" where
  "mean_encoding keys churn = map (\<lambda>v. Num (churn_mean_of keys churn v)) keys"

section \<open>perform_feature_engineering\<close>

definition cat_columns :: "string list" where
  "cat_columns =
     [''Gender'', ''Education_Level'', ''Marital_Status'', ''Income_Category'', ''Card_Category'']"

definition keep_cols :: "string list" where
  "keep_cols =
     [''Customer_Age'', ''Dependent_count'', ''Months_on_book'', ''Total_Relationship_Count'',
      ''Months_Inactive_12_mon'', ''Contacts_Count_12_mon'', ''Credit_Limit'',
      ''Total_Revolving_Bal'', ''Avg_Open_To_Buy'', ''Total_Amt_Chng_Q4_Q1'',
      ''Total_Trans_Amt'', ''Total_Trans_Ct'', ''Total_Ct_Chng_Q4_Q1'',
      ''Avg_Utilization_Ratio'', ''Gender_Churn'', ''Education_Level_Churn'',
      ''Marital_Status_Churn'', ''Income_Category_Churn'', ''Card_Category_Churn'']"

record series =
  s_index :: "nat list"
  s_values :: "cell list"

text \<open>\<^verbatim>\<open>encoded_df[keep_cols]\<close>: the listed columns in the listed order, or a key error.\<close>

fun select_columns :: "dataframe \<Rightarrow> string list \<Rightarrow> error + (string \<times> cell list) list" where
  "select_columns df [] = Inr []"
| "select_columns df (name # names) =
     (case getitem df name of
        Inl e \<Rightarrow> Inl e
      | Inr col \<Rightarrow>
          (case select_columns df names of
             Inl e \<Rightarrow> Inl e
           | Inr cols \<Rightarrow> Inr ((name, col) # cols)))"

text \<open>
  \<^verbatim>\<open>features = pd.DataFrame(); features[keys] = selected\<close>: pandas assigns the
  columns of the right-hand side to the keys one by one, and the empty frame takes the
  row labels of what it is given.
\<close>

definition assign_columns :: "nat list \<Rightarrow> string list \<Rightarrow> (string \<times> cell list) list \<Rightarrow> dataframe" where
  "assign_columns idx keys selected =
     fold (\<lambda>kc features. setitem features (fst kc) (snd (snd kc))) (zip keys selected)
       \<lparr>df_index = idx, df_columns = []\<rparr>"

text \<open>The part of the function before the split: the feature matrix and the label.\<close>

definition feature_matrix :: "store \<Rightarrow> ref \<Rightarrow> string \<Rightarrow> error + (dataframe \<times> series)" where
  "feature_matrix s dataframe response =
     (case encoder_helper s dataframe cat_columns response of
        (Inl e, s1) \<Rightarrow> Inl e
      | (Inr encoded_df, s1) \<Rightarrow>
          (case getitem (s1 ! encoded_df) ''Churn'' of
             Inl e \<Rightarrow> Inl e
           | Inr churn \<Rightarrow>
               (case select_columns (s1 ! encoded_df) keep_cols of
                  Inl e \<Rightarrow> Inl e
                | Inr selected \<Rightarrow>
                    Inr (assign_columns (df_index (s1 ! encoded_df)) keep_cols selected,
                         \<lparr>s_index = df_index (s1 ! encoded_df), s_values = churn\<rparr>))))"

text \<open>Rows by position, as scikit-learn takes them from a frame and from a series.\<close>

definition iloc :: "dataframe \<Rightarrow> nat list \<Rightarrow> dataframe" where
  "iloc df rows =
     \<lparr>df_index = map (\<lambda>i. df_index df ! i) rows,
      df_columns = map (\<lambda>nc. (fst nc, map (\<lambda>i. snd nc ! i) rows)) (df_columns df)\<rparr>"

definition iloc_series :: "series \<Rightarrow> nat list \<Rightarrow> series" where
  "iloc_series y rows =
     \<lparr>s_index = map (\<lambda>i. s_index y ! i) rows, s_values = map (\<lambda>i. s_values y ! i) rows\<rparr>"

record split =
  x_train_split :: dataframe
  x_test_split :: dataframe
  y_train_split :: series
  y_test_split :: series

text \<open>
  Random numbers. A generator is its internal state. numpy's \<^verbatim>\<open>RandomState(seed)\<close> is
  the generator a seed initialises, \<^verbatim>\<open>rng.permutation(n)\<close> the permutation of
  \<open>0, ..., n - 1\<close> a generator draws, and every run of the program has its global
  generator, which numpy seeds from the entropy of the operating system when the
  process starts: the part of a run's environment that differs from run to run. The two
  functions are parameters.
\<close>

type_synonym generator = nat

record numpy =
  RandomState :: "nat \<Rightarrow> generator"
  rng_permutation :: "generator \<Rightarrow> nat \<Rightarrow> nat list"
  global_generator :: generator

text \<open>
  scikit-learn's \<^verbatim>\<open>check_random_state\<close>: without a seed the global generator, with a
  seed a new generator initialised with it.
\<close>

definition check_random_state :: "numpy \<Rightarrow> nat option \<Rightarrow> generator" where
  "check_random_state np random_state =
     (case random_state of None \<Rightarrow> global_generator np | Some seed \<Rightarrow> RandomState np seed)"

text \<open>
  \<^verbatim>\<open>train_test_split(features, label, test_size=0.3, random_state=...)\<close> of scikit-learn.
  The test part has \<open>ceil(0.3 * n)\<close> rows, taken here as the exact ceiling of \<open>3 n / 10\<close>
  on the naturals (the rounding of the floating-point product is not modelled), the
  train part the others, and an empty train part is a value error. The rows are drawn
  as one permutation of \<open>0, ..., n - 1\<close> from the generator \<^verbatim>\<open>check_random_state\<close>
  gives: the first \<open>n_test\<close> positions are the test rows, the next \<open>n_train\<close> the train
  rows.
\<close>

definition train_test_split :: "numpy \<Rightarrow> dataframe \<Rightarrow> series \<Rightarrow> nat option \<Rightarrow> error + split" where
  "train_test_split np features label random_state =
     (let n_samples = length (df_index features);
          n_test = (3 * n_samples + 9) div 10;
          n_train = n_samples - n_test
      in if length (s_index label) \<noteq> n_samples then Inl ValueError
         else if n_train = 0 then Inl ValueError
         else (let rng = check_random_state np random_state;
                   permutation = rng_permutation np rng n_samples;
                   ind_test = take n_test permutation;
                   ind_train = take n_train (drop n_test permutation)
               in Inr \<lparr>x_train_split = iloc features ind_train,
                       x_test_split = iloc features ind_test,
                       y_train_split = iloc_series label ind_train,
                       y_test_split = iloc_series label ind_test\<rparr>))"

definition perform_feature_engineering ::
  "numpy \<Rightarrow> store \<Rightarrow> ref \<Rightarrow> string \<Rightarrow> error + split" where
  "perform_feature_engineering np s dataframe response =
     (case feature_matrix s dataframe response of
        Inl e \<Rightarrow> Inl e
      | Inr (features, label) \<Rightarrow> train_test_split np features label (Some 42))"

section \<open>classification_report_image\<close>

text \<open>
  What a text call shows: a literal string, or the report scikit-learn's
  \<^verbatim>\<open>classification_report(y_true, y_pred)\<close> prints for the two label vectors.
\<close>

datatype content = Text string | Report "int list" "int list"

record placed_text =
  at_x :: rat
  at_y :: rat
  shown :: content

type_synonym figure = "placed_text list"

definition plt_text :: "rat \<Rightarrow> rat \<Rightarrow> content \<Rightarrow> placed_text" where
  "plt_text x y c = \<lparr>at_x = x, at_y = y, shown = c\<rparr>"

definition classification_report_image ::
  "int list \<Rightarrow> int list \<Rightarrow> int list \<Rightarrow> int list \<Rightarrow> int list \<Rightarrow> int list \<Rightarrow> (string \<times> figure) list" where
  "classification_report_image y_train y_test y_train_preds_lr y_train_preds_rf
       y_test_preds_lr y_test_preds_rf =
     [(''./images/results/rf_results.png'',
       [plt_text (1 / 100) (125 / 100) (Text ''Random Forest Train''),
        plt_text (1 / 100) (5 / 100) (Report y_test y_test_preds_rf),
        plt_text (1 / 100) (6 / 10) (Text ''Random Forest Test''),
        plt_text (1 / 100) (7 / 10) (Report y_train y_train_preds_rf)]),
      (''./images/results/logistic_results.png'',
       [plt_text (1 / 100) (125 / 100) (Text ''Logistic Regression Train''),
        plt_text (1 / 100) (5 / 100) (Report y_train y_train_preds_lr),
        plt_text (1 / 100) (6 / 10) (Text ''Logistic Regression Test''),
        plt_text (1 / 100) (7 / 10) (Report y_test y_test_preds_lr)])]"

definition saved_figure :: "(string \<times> figure) list \<Rightarrow> string \<Rightarrow> figure" where
  "saved_figure files fname = (case map_of files fname of None \<Rightarrow> [] | Some fig \<Rightarrow> fig)"

text \<open>
  The vertical coordinate grows upwards and a text stands on its anchor, so the block
  under a heading is the text anchored nearest below the heading.
\<close>

definition block_under :: "figure \<Rightarrow> content \<Rightarrow> content option" where
  "block_under fig heading =
     (case filter (\<lambda>t. shown t = heading) fig of
        [] \<Rightarrow> None
      | h # hs \<Rightarrow>
          (case filter (\<lambda>t. at_y t < at_y h) fig of
             [] \<Rightarrow> None
           | t # ts \<Rightarrow> Some (shown (fold (\<lambda>a b. if at_y b < at_y a then a else b) ts t))))"

section \<open>feature_importance_plot\<close>

record bar_chart =
  chart_title :: string
  chart_ylabel :: string
  bars :: "(nat \<times> rat) list"
  xticks :: "nat list"
  xticklabels :: "string list"

text \<open>\<^verbatim>\<open>[xs[i] for i in indices]\<close> and \<^verbatim>\<open>xs[indices]\<close>: an index error out of range.\<close>

definition take_at :: "'a list \<Rightarrow> nat list \<Rightarrow> error + 'a list" where
  "take_at xs indices =
     (if list_all (\<lambda>i. i < length xs) indices then Inr (map (\<lambda>i. xs ! i) indices)
      else Inl IndexError)"

text \<open>
  \<^verbatim>\<open>plt.bar(x, height)\<close> broadcasts its arguments: equal lengths pair up, a single
  value is repeated, anything else is a value error.
\<close>

definition plt_bar :: "nat list \<Rightarrow> rat list \<Rightarrow> error + (nat \<times> rat) list" where
  "plt_bar xs heights =
     (if length xs = length heights then Inr (zip xs heights)
      else if length heights = 1 then Inr (map (\<lambda>x. (x, hd heights)) xs)
      else if length xs = 1 then Inr (map (\<lambda>h. (hd xs, h)) heights)
      else Inl ValueError)"

text \<open>
  The model is its importance scores, the feature matrix its column names, and
  \<^verbatim>\<open>np.argsort\<close> a parameter: numpy's default sort is not stable, and the theorems
  assume of it only that it returns the indices in an ascending order of the scores.
\<close>

definition feature_importance_plot ::
  "(rat list \<Rightarrow> nat list) \<Rightarrow> rat list \<Rightarrow> string list \<Rightarrow> string \<Rightarrow> error + (string \<times> bar_chart)" where
  "feature_importance_plot argsort importances columns output_pth =
     (let indices = rev (argsort importances) in
      case take_at columns indices of
        Inl e \<Rightarrow> Inl e
      | Inr names \<Rightarrow>
          (case take_at importances indices of
             Inl e \<Rightarrow> Inl e
           | Inr heights \<Rightarrow>
               (case plt_bar [0..<length columns] heights of
                  Inl e \<Rightarrow> Inl e
                | Inr bs \<Rightarrow>
                    Inr (output_pth @ ''feature_importances.png'',
                         \<lparr>chart_title = ''Feature Importance'', chart_ylabel = ''Importance'',
                          bars = bs, xticks = [0..<length columns], xticklabels = names\<rparr>))))"


section \<open>train_models: the fitted classifiers\<close>

text \<open>
  The arguments of the two constructors that the module sets or searches over, and the
  seed. An argument a call leaves out keeps scikit-learn's default.
\<close>

datatype solver = lbfgs | liblinear | newton_cg | sag | saga

record forest_args =
  rfc_n_estimators :: nat
  rfc_criterion :: string
  rfc_max_depth :: "nat option"
  rfc_max_features :: string
  rfc_n_jobs :: "int option"
  rfc_random_state :: "nat option"

record logistic_args =
  lrc_solver :: solver
  lrc_max_iter :: nat
  lrc_n_jobs :: "int option"
  lrc_random_state :: "nat option"

definition RandomForestClassifier_defaults :: forest_args where
  "RandomForestClassifier_defaults =
     \<lparr>rfc_n_estimators = 100, rfc_criterion = ''gini'', rfc_max_depth = None,
      rfc_max_features = ''auto'', rfc_n_jobs = None, rfc_random_state = None\<rparr>"

definition LogisticRegression_defaults :: logistic_args where
  "LogisticRegression_defaults =
     \<lparr>lrc_solver = lbfgs, lrc_max_iter = 100, lrc_n_jobs = None, lrc_random_state = None\<rparr>"

definition rfc :: forest_args where
  "rfc = RandomForestClassifier_defaults\<lparr>rfc_random_state := Some 42, rfc_n_jobs := Some (- 1)\<rparr>"

definition lrc :: logistic_args where
  "lrc = LogisticRegression_defaults\<lparr>lrc_n_jobs := Some (- 1), lrc_max_iter := 1000\<rparr>"

text \<open>
  The candidates of the grid, in the order scikit-learn tries them: the names sorted,
  the last one changing fastest.
\<close>

definition param_grid :: "(string \<times> nat \<times> string \<times> nat) list" where
  "param_grid =
     [(criterion, max_depth, max_features, n_estimators).
        criterion \<leftarrow> [''gini'', ''entropy''], max_depth \<leftarrow> [4, 5, 100],
        max_features \<leftarrow> [''auto'', ''sqrt''], n_estimators \<leftarrow> [200, 500]]"

definition set_params :: "forest_args \<Rightarrow> string \<times> nat \<times> string \<times> nat \<Rightarrow> forest_args" where
  "set_params estimator params =
     (case params of
        (criterion, max_depth, max_features, n_estimators) \<Rightarrow>
          estimator\<lparr>rfc_criterion := criterion, rfc_max_depth := Some max_depth,
                     rfc_max_features := max_features, rfc_n_estimators := n_estimators\<rparr>)"

text \<open>
  What scikit-learn computes is a parameter: the forest grown from the arguments, the
  generator its trees draw their bootstrap samples and their features from, and the
  data; the coefficients a solver finds, with a generator for the solvers that draw;
  the folds of a stratified split without shuffling, as train and test positions, or
  the error of a label that cannot be split so; and the accuracy of a forest on a
  table. The worker processes of \<open>n_jobs\<close> are not modelled, and neither are the
  errors of a single fit.
\<close>

record ('forest, 'logit) sklearn =
  grow_forest :: "forest_args \<Rightarrow> generator \<Rightarrow> dataframe \<Rightarrow> series \<Rightarrow> 'forest"
  solve_logistic :: "logistic_args \<Rightarrow> generator option \<Rightarrow> dataframe \<Rightarrow> series \<Rightarrow> 'logit"
  stratified_folds :: "nat \<Rightarrow> series \<Rightarrow> error + (nat list \<times> nat list) list"
  accuracy :: "'forest \<Rightarrow> dataframe \<Rightarrow> series \<Rightarrow> rat"

text \<open>A fit of a forest takes its generator from \<^verbatim>\<open>check_random_state(self.random_state)\<close>.\<close>

definition RandomForestClassifier_fit ::
  "numpy \<Rightarrow> ('forest, 'logit) sklearn \<Rightarrow> forest_args \<Rightarrow> dataframe \<Rightarrow> series \<Rightarrow> 'forest" where
  "RandomForestClassifier_fit np sk estimator X y =
     grow_forest sk estimator (check_random_state np (rfc_random_state estimator)) X y"

text \<open>
  A logistic regression reads \<open>random_state\<close> only under the solvers liblinear, sag and
  saga, which shuffle the data; lbfgs and newton-cg draw nothing.
\<close>

definition solver_draws :: "solver \<Rightarrow> bool" where
  "solver_draws s = (s = liblinear \<or> s = sag \<or> s = saga)"

definition LogisticRegression_fit ::
  "numpy \<Rightarrow> ('forest, 'logit) sklearn \<Rightarrow> logistic_args \<Rightarrow> dataframe \<Rightarrow> series \<Rightarrow> 'logit" where
  "LogisticRegression_fit np sk estimator X y =
     solve_logistic sk estimator
       (if solver_draws (lrc_solver estimator)
        then Some (check_random_state np (lrc_random_state estimator)) else None)
       X y"

text \<open>
  \<^verbatim>\<open>GridSearchCV(estimator, param_grid, cv).fit(X, y)\<close>: every candidate is fitted on
  the train rows of every fold and scored on its test rows, the first candidate of the
  best mean score is fitted on all rows, and that is \<^verbatim>\<open>best_estimator_\<close>.
\<close>

definition mean_test_score ::
  "numpy \<Rightarrow> ('forest, 'logit) sklearn \<Rightarrow> forest_args \<Rightarrow> (nat list \<times> nat list) list \<Rightarrow>
     dataframe \<Rightarrow> series \<Rightarrow> string \<times> nat \<times> string \<times> nat \<Rightarrow> rat" where
  "mean_test_score np sk estimator folds X y params =
     sum_list
       (map (\<lambda>fold.
               accuracy sk
                 (RandomForestClassifier_fit np sk (set_params estimator params)
                    (iloc X (fst fold)) (iloc_series y (fst fold)))
                 (iloc X (snd fold)) (iloc_series y (snd fold)))
          folds)
     / of_nat (length folds)"

fun best_of :: "('a \<Rightarrow> rat) \<Rightarrow> 'a \<Rightarrow> 'a list \<Rightarrow> 'a" where
  "best_of score best [] = best"
| "best_of score best (c # cs) = best_of score (if score best < score c then c else best) cs"

definition GridSearchCV_fit ::
  "numpy \<Rightarrow> ('forest, 'logit) sklearn \<Rightarrow> forest_args \<Rightarrow> (string \<times> nat \<times> string \<times> nat) list \<Rightarrow>
     nat \<Rightarrow> dataframe \<Rightarrow> series \<Rightarrow> error + 'forest" where
  "GridSearchCV_fit np sk estimator grid cv X y =
     (case stratified_folds sk cv y of
        Inl e \<Rightarrow> Inl e
      | Inr folds \<Rightarrow>
          (case grid of
             [] \<Rightarrow> Inl ValueError
           | c # cs \<Rightarrow>
               Inr (RandomForestClassifier_fit np sk
                      (set_params estimator
                         (best_of (mean_test_score np sk estimator folds X y) c cs))
                      X y)))"

text \<open>
  The two models \<open>train_models\<close> fits, saves and predicts with: the best estimator of
  the grid search over the forest, and the logistic regression.
\<close>

definition train_models_fit ::
  "numpy \<Rightarrow> ('forest, 'logit) sklearn \<Rightarrow> dataframe \<Rightarrow> series \<Rightarrow> error + ('forest \<times> 'logit)" where
  "train_models_fit np sk x_train y_train =
     (case GridSearchCV_fit np sk rfc param_grid 5 x_train y_train of
        Inl e \<Rightarrow> Inl e
      | Inr best_estimator \<Rightarrow>
          Inr (best_estimator, LogisticRegression_fit np sk lrc x_train y_train))"

section \<open>Example data\<close>

text \<open>
  Ten customers in the layout of the bank file, five of them existing customers, as the
  file parser returns them.
\<close>

definition bank_data :: dataframe where
  "bank_data =
     \<lparr>df_index = [0, 1, 2, 3, 4, 5, 6, 7, 8, 9],
      df_columns =
       [(''Attrition_Flag'',
           [Str ''Existing Customer'', Str ''Attrited Customer'', Str ''Existing Customer'',
            Str ''Attrited Customer'', Str ''Existing Customer'', Str ''Attrited Customer'',
            Str ''Existing Customer'', Str ''Attrited Customer'', Str ''Existing Customer'',
            Str ''Attrited Customer'']),
        (''Customer_Age'', map Num [45, 49, 51, 40, 40, 44, 51, 32, 37, 48]),
        (''Gender'',
           [Str ''M'', Str ''M'', Str ''M'', Str ''F'', Str ''F'', Str ''F'', Str ''M'', Str ''M'',
            Str ''F'', Str ''F'']),
        (''Dependent_count'', map Num [3, 5, 3, 4, 3, 2, 4, 0, 3, 2]),
        (''Education_Level'',
           [Str ''High School'', Str ''Graduate'', Str ''Graduate'', Str ''High School'',
            Str ''Uneducated'', Str ''Graduate'', Str ''Unknown'', Str ''High School'',
            Str ''Uneducated'', Str ''Graduate'']),
        (''Marital_Status'',
           [Str ''Married'', Str ''Single'', Str ''Married'', Str ''Unknown'', Str ''Married'',
            Str ''Married'', Str ''Married'', Str ''Unknown'', Str ''Single'', Str ''Single'']),
        (''Income_Category'',
           [Str ''$60K - $80K'', Str ''Less than $40K'', Str ''$80K - $120K'',
            Str ''Less than $40K'', Str ''$60K - $80K'', Str ''$40K - $60K'', Str ''$120K +'',
            Str ''$60K - $80K'', Str ''$60K - $80K'', Str ''$80K - $120K'']),
        (''Card_Category'',
           [Str ''Blue'', Str ''Blue'', Str ''Blue'', Str ''Blue'', Str ''Blue'', Str ''Blue'',
            Str ''Gold'', Str ''Silver'', Str ''Blue'', Str ''Blue'']),
        (''Months_on_book'', map Num [39, 44, 36, 34, 21, 36, 46, 27, 36, 36]),
        (''Total_Relationship_Count'', map Num [5, 6, 4, 3, 5, 3, 6, 2, 5, 6]),
        (''Months_Inactive_12_mon'', map Num [1, 1, 1, 4, 1, 1, 1, 2, 2, 3]),
        (''Contacts_Count_12_mon'', map Num [3, 2, 0, 1, 0, 2, 3, 2, 0, 3]),
        (''Credit_Limit'', map Num [12691, 8256, 3418, 3313, 4716, 4010, 34516, 29081, 22352, 11656]),
        (''Total_Revolving_Bal'', map Num [777, 864, 0, 2517, 0, 1247, 2264, 1396, 2517, 1677]),
        (''Avg_Open_To_Buy'', map Num [11914, 7392, 3418, 796, 4716, 2763, 32252, 27685, 19835, 9979]),
        (''Total_Amt_Chng_Q4_Q1'', map Num [1335 / 1000, 1541 / 1000, 2594 / 1000, 1405 / 1000,
            2175 / 1000, 1376 / 1000, 1975 / 1000, 2204 / 1000, 3355 / 1000, 1524 / 1000]),
        (''Total_Trans_Amt'', map Num [1144, 1291, 1887, 1171, 816, 1088, 1330, 1538, 1350, 1441]),
        (''Total_Trans_Ct'', map Num [42, 33, 20, 20, 28, 24, 31, 36, 24, 32]),
        (''Total_Ct_Chng_Q4_Q1'', map Num [1625 / 1000, 3714 / 1000, 2333 / 1000, 2333 / 1000,
            25 / 10, 846 / 1000, 722 / 1000, 714 / 1000, 1182 / 1000, 882 / 1000]),
        (''Avg_Utilization_Ratio'', map Num [61 / 1000, 105 / 1000, 0, 76 / 100, 0, 311 / 1000,
            66 / 1000, 48 / 1000, 113 / 1000, 144 / 1000])]\<rparr>"

definition bank_csv :: "string \<Rightarrow> error + dataframe" where
  "bank_csv pth = (if pth = ''./data/bank_data.csv'' then Inr bank_data else Inl OSError)"

definition bank_loaded :: dataframe where
  "bank_loaded = setitem bank_data ''Churn'' (map Num [0, 1, 0, 1, 0, 1, 0, 1, 0, 1])"

text \<open>
  A stand-in for numpy: a generator is initialised with its seed and draws a rotation
  of the positions; the global generator of the run is in the state 7.
\<close>

definition toy_numpy :: numpy where
  "toy_numpy =
     \<lparr>RandomState = (\<lambda>seed. seed),
      rng_permutation = (\<lambda>rng n. rotate (rng mod (n + 1)) [0..<n]),
      global_generator = 7\<rparr>"

text \<open>
  A stand-in for scikit-learn whose fitted models are the generator they were given.
\<close>

definition toy_sklearn :: "(generator, generator option) sklearn" where
  "toy_sklearn =
     \<lparr>grow_forest = (\<lambda>estimator rng X y. rng),
      solve_logistic = (\<lambda>estimator rng X y. rng),
      stratified_folds = (\<lambda>cv y. Inr []),
      accuracy = (\<lambda>forest X y. 0)\<rparr>"

text \<open>Two rows of category A with churn 0 and 1, and one row of category B.\<close>

definition two_groups :: dataframe where
  "two_groups =
     \<lparr>df_index = [0, 1, 2],
      df_columns =
        [(''Category'', [Str ''A'', Str ''A'', Str ''B'']),
         (''Churn'', [Num 0, Num 1, Num 1])]\<rparr>"

text \<open>A table with a column named like the encoding of another listed column.\<close>

definition overwritten :: dataframe where
  "overwritten =
     \<lparr>df_index = [0, 1],
      df_columns =
        [(''A'', [Num 1, Num 1]),
         (''A_x'', [Num 7, Num 8]),
         (''Churn'', [Num 0, Num 1])]\<rparr>"

text \<open>A stable argsort, one of the orders numpy may return.\<close>

definition stable_argsort :: "rat list \<Rightarrow> nat list" where
  "stable_argsort xs = map snd (sort_key fst (zip xs [0..<length xs]))"

section \<open>Columns read and written\<close>

lemma map_of_set_column:
  "map_of (set_column cols name col) k = (if k = name then Some col else map_of cols k)"
  by (induction cols name col rule: set_column.induct) auto

lemma getitem_setitem:
  "getitem (setitem df name col) k = (if k = name then Inr col else getitem df k)"
  by (simp add: getitem_def setitem_def map_of_set_column)

lemma df_index_setitem: "df_index (setitem df name col) = df_index df"
  by (simp add: setitem_def)

lemma names_set_column:
  "fst ` set (set_column cols name col) = insert name (fst ` set cols)"
  by (induction cols name col rule: set_column.induct) auto

lemma column_names_setitem:
  "set (column_names (setitem df name col)) = insert name (set (column_names df))"
  by (simp add: column_names_def setitem_def names_set_column)

lemma getitem_Inr_iff: "(\<exists>col. getitem df k = Inr col) \<longleftrightarrow> k \<in> set (column_names df)"
  by (auto simp: getitem_def column_names_def map_of_eq_None_iff split: option.splits)
     (metis map_of_eq_None_iff not_Some_eq)

lemma getitem_error: "getitem df k = Inl e \<Longrightarrow> e = KeyError \<and> k \<notin> set (column_names df)"
  by (auto simp: getitem_def column_names_def map_of_eq_None_iff split: option.splits)

section \<open>The loaded table\<close>

text \<open>
  C1. Whenever \<open>import_data\<close> returns a table, that table has the rows and the
  \<open>Attrition_Flag\<close> column of the file read, and its \<open>Churn\<close> column is
  \<open>churn_flag\<close> applied to the \<open>Attrition_Flag\<close> column, row by row: 1 exactly where
  the status is not the string "Existing Customer", 0 exactly where it is. The column is
  a function of the statuses alone.
\<close>

theorem import_data_churn:
  assumes "import_data read_csv pth = Inr df"
  shows "\<exists>raw flags. read_csv pth = Inr raw \<and> df_index df = df_index raw
           \<and> getitem raw ''Attrition_Flag'' = Inr flags
           \<and> getitem df ''Attrition_Flag'' = Inr flags
           \<and> getitem df ''Churn'' = Inr (map churn_flag flags)
           \<and> (\<forall>i<length flags.
                 (map churn_flag flags ! i = Num 1 \<longleftrightarrow> flags ! i \<noteq> Str ''Existing Customer'')
               \<and> (map churn_flag flags ! i = Num 0 \<longleftrightarrow> flags ! i = Str ''Existing Customer''))"
proof -
  from assms obtain raw where raw: "read_csv pth = Inr raw"
    by (auto simp: import_data_def split: sum.splits)
  with assms obtain flags where flags: "getitem raw ''Attrition_Flag'' = Inr flags"
    and df: "df = setitem raw ''Churn'' (map churn_flag flags)"
    by (auto simp: import_data_def split: sum.splits)
  have "getitem df ''Attrition_Flag'' = Inr flags"
    by (simp add: df getitem_setitem flags)
  moreover have "getitem df ''Churn'' = Inr (map churn_flag flags)"
    by (simp add: df getitem_setitem)
  moreover have "df_index df = df_index raw"
    by (simp add: df df_index_setitem)
  moreover have "\<forall>i<length flags.
      (map churn_flag flags ! i = Num 1 \<longleftrightarrow> flags ! i \<noteq> Str ''Existing Customer'')
    \<and> (map churn_flag flags ! i = Num 0 \<longleftrightarrow> flags ! i = Str ''Existing Customer'')"
    by (simp add: churn_flag_def)
  ultimately show ?thesis using raw flags by blast
qed

theorem import_data_churn_witness:
  "import_data bank_csv ''./data/bank_data.csv'' = Inr bank_loaded
   \<and> getitem bank_loaded ''Churn'' = Inr (map Num [0, 1, 0, 1, 0, 1, 0, 1, 0, 1])"
proof -
  have h: "import_data bank_csv ''./data/bank_data.csv'' = Inr bank_loaded"
    by code_simp
  from import_data_churn [OF h] obtain raw flags where
    raw: "bank_csv ''./data/bank_data.csv'' = Inr raw" and
    flags: "getitem raw ''Attrition_Flag'' = Inr flags" and
    churn: "getitem bank_loaded ''Churn'' = Inr (map churn_flag flags)"
    by blast
  have "bank_csv ''./data/bank_data.csv'' = Inr bank_data" by code_simp
  with raw have "raw = bank_data" by simp
  moreover have "getitem bank_data ''Attrition_Flag'' =
      Inr [Str ''Existing Customer'', Str ''Attrited Customer'', Str ''Existing Customer'',
           Str ''Attrited Customer'', Str ''Existing Customer'', Str ''Attrited Customer'',
           Str ''Existing Customer'', Str ''Attrited Customer'', Str ''Existing Customer'',
           Str ''Attrited Customer'']"
    by code_simp
  ultimately have "flags =
      [Str ''Existing Customer'', Str ''Attrited Customer'', Str ''Existing Customer'',
       Str ''Attrited Customer'', Str ''Existing Customer'', Str ''Attrited Customer'',
       Str ''Existing Customer'', Str ''Attrited Customer'', Str ''Existing Customer'',
       Str ''Attrited Customer'']"
    using flags by simp
  with churn have "getitem bank_loaded ''Churn'' = Inr (map Num [0, 1, 0, 1, 0, 1, 0, 1, 0, 1])"
    by (simp add: churn_flag_def)
  with h show ?thesis by simp
qed

section \<open>One encoding pass\<close>

lemma lookup_rows_error: "lookup_rows g vals = Inl e \<Longrightarrow> e = KeyError"
  by (induction vals arbitrary: e) (auto simp: loc_def split: option.splits sum.splits)

lemma lookup_rows_Inr:
  "lookup_rows g vals = Inr col \<Longrightarrow>
     col = map (\<lambda>v. the (map_of g v)) vals \<and> (\<forall>v\<in>set vals. map_of g v \<noteq> None)"
  by (induction vals arbitrary: col) (auto simp: loc_def split: option.splits sum.splits)

lemma lookup_rows_total:
  "\<forall>v\<in>set vals. map_of g v \<noteq> None \<Longrightarrow> lookup_rows g vals = Inr (map (\<lambda>v. the (map_of g v)) vals)"
  by (induction vals) (auto simp: loc_def split: option.splits sum.splits)

lemma numeric_column_left:
  assumes "getitem df k = Inr col" "numeric col" "k \<noteq> c"
  shows "filter (\<lambda>nc. fst nc \<noteq> c \<and> numeric (snd nc)) (df_columns df) \<noteq> []"
proof -
  from assms(1) have "(k, col) \<in> set (df_columns df)"
    by (auto simp: getitem_def split: option.splits dest: map_of_SomeD)
  with assms(2,3) show ?thesis by (force simp: filter_empty_conv)
qed

lemma encode_column_error:
  assumes "encode_column df c = Inl e" "getitem df k = Inr col" "numeric col" "k \<noteq> c"
  shows "e = KeyError"
  using assms(1) numeric_column_left [OF assms(2-4)]
  by (auto simp: encode_column_def groupby_mean_churn_def split: sum.splits if_splits
      dest: getitem_error lookup_rows_error)

lemma map_of_groups:
  "map_of (map (\<lambda>k. (k, f k)) (remdups (filter (\<lambda>k. k \<noteq> NaN) keys))) v =
     (if v \<in> set keys \<and> v \<noteq> NaN then Some (f v) else None)"
  by (simp add: map_of_map_restrict restrict_map_def)

lemma numbers_all: "list_all is_number cs \<Longrightarrow> length (numbers cs) = length cs"
  by (induction cs rule: numbers.induct) (auto simp: is_number_def)

lemma group_rows_subset: "set (group_rows keys vals k) \<subseteq> set vals"
  by (auto simp: group_rows_def dest: set_zip_rightD)

lemma group_rows_nonempty:
  "length keys = length vals \<Longrightarrow> k \<in> set keys \<Longrightarrow> group_rows keys vals k \<noteq> []"
proof -
  assume len: "length keys = length vals" and k: "k \<in> set keys"
  then obtain i where i: "i < length keys" "keys ! i = k" by (auto simp: in_set_conv_nth)
  with len have "(k, vals ! i) \<in> set (zip keys vals)"
    by (auto simp: set_zip)
  then have "vals ! i \<in> set (group_rows keys vals k)"
    by (force simp: group_rows_def)
  then show ?thesis by auto
qed

lemma mean_group:
  assumes "list_all is_number churn" "length keys = length churn" "k \<in> set keys"
  shows "mean (group_rows keys churn k) = Num (churn_mean_of keys churn k)"
proof -
  let ?g = "group_rows keys churn k"
  have all: "list_all is_number ?g"
    using assms(1) group_rows_subset [of keys churn k] by (auto simp: list_all_iff)
  have ne: "?g \<noteq> []" using assms by (simp add: group_rows_nonempty)
  have len: "length (numbers ?g) = length ?g" using all by (rule numbers_all)
  with ne have "numbers ?g \<noteq> []" by auto
  then obtain x xs where xs: "numbers ?g = x # xs" by (cases "numbers ?g") auto
  show ?thesis
    using len by (simp add: mean_def churn_mean_of_def xs)
qed

lemma numeric_all: "list_all is_number cs \<Longrightarrow> numeric cs"
  by (induction cs) (auto simp: numeric_def is_number_def split: cell.splits)

lemma encode_column_Inr:
  assumes "encode_column df c = Inr col"
    and "getitem df ''Churn'' = Inr churn" "list_all is_number churn"
    and "getitem df c = Inr keys" "length keys = length churn"
  shows "col = mean_encoding keys churn \<and> NaN \<notin> set keys \<and> c \<noteq> ''Churn''"
proof -
  let ?g = "map (\<lambda>k. (k, mean (group_rows keys churn k))) (remdups (filter (\<lambda>k. k \<noteq> NaN) keys))"
  from assms have c: "c \<noteq> ''Churn''"
    by (auto simp: encode_column_def groupby_mean_churn_def split: sum.splits if_splits)
  from assms c have lk: "lookup_rows ?g keys = Inr col"
    by (auto simp: encode_column_def groupby_mean_churn_def split: sum.splits if_splits)
  from lookup_rows_Inr [OF lk]
  have col: "col = map (\<lambda>v. the (map_of ?g v)) keys" and dom: "\<forall>v\<in>set keys. map_of ?g v \<noteq> None"
    by simp_all
  from dom have nan: "NaN \<notin> set keys"
    by (auto simp: map_of_groups split: if_splits)
  have "map (\<lambda>v. the (map_of ?g v)) keys = mean_encoding keys churn"
    unfolding mean_encoding_def
  proof (rule map_cong [OF refl])
    fix v assume v: "v \<in> set keys"
    with nan have "v \<noteq> NaN" by auto
    with v have "map_of ?g v = Some (mean (group_rows keys churn v))"
      by (simp add: map_of_groups)
    then show "the (map_of ?g v) = Num (churn_mean_of keys churn v)"
      using mean_group [OF assms(3) assms(5) v] by simp
  qed
  with col nan c show ?thesis by simp
qed

lemma encode_column_total:
  assumes "getitem df ''Churn'' = Inr churn" "list_all is_number churn"
    and "getitem df c = Inr keys" "length keys = length churn"
    and "NaN \<notin> set keys" "c \<noteq> ''Churn''"
  shows "encode_column df c = Inr (mean_encoding keys churn)"
proof -
  let ?g = "map (\<lambda>k. (k, mean (group_rows keys churn k))) (remdups (filter (\<lambda>k. k \<noteq> NaN) keys))"
  have "\<forall>v\<in>set keys. map_of ?g v \<noteq> None"
    using assms(5) by (auto simp: map_of_groups)
  from lookup_rows_total [OF this] obtain col where "lookup_rows ?g keys = Inr col" by blast
  then have "encode_column df c = Inr col"
    using assms numeric_column_left [OF assms(1) numeric_all [OF assms(2)], of c]
    by (simp add: encode_column_def groupby_mean_churn_def numeric_all)
  with encode_column_Inr [OF this assms(1-4)] show ?thesis by simp
qed

lemma numbers_map: "list_all is_number cs \<Longrightarrow> numbers cs = map num_of cs"
  by (induction cs rule: numbers.induct) (auto simp: is_number_def num_of_def)

lemma group_rows_sum:
  assumes "list_all is_number churn" "length keys = length churn"
  shows "sum_list (numbers (group_rows keys churn v)) =
         (\<Sum>j\<in>{j. j < length keys \<and> keys ! j = v}. num_of (churn ! j))"
proof -
  have all: "list_all is_number (group_rows keys churn v)"
    using assms(1) group_rows_subset [of keys churn v] by (auto simp: list_all_iff)
  have "sum_list (numbers (group_rows keys churn v)) =
        sum_list (map (\<lambda>kv. if fst kv = v then num_of (snd kv) else 0) (zip keys churn))"
    by (simp only: numbers_map [OF all]) (simp add: group_rows_def sum_list_map_filter' comp_def)
  also have "\<dots> = (\<Sum>j = 0..<length keys. if keys ! j = v then num_of (churn ! j) else 0)"
    using assms(2) by (auto simp: sum_list_sum_nth intro!: sum.cong)
  also have "\<dots> = (\<Sum>j\<in>{j. j < length keys \<and> keys ! j = v}. num_of (churn ! j))"
    by (rule sum.mono_neutral_cong_right) auto
  finally show ?thesis .
qed

lemma group_rows_length:
  assumes "length keys = length churn"
  shows "length (group_rows keys churn v) = card {j. j < length keys \<and> keys ! j = v}"
proof -
  have "{i. i < length (zip keys churn) \<and> fst (zip keys churn ! i) = v} =
        {j. j < length keys \<and> keys ! j = v}"
    using assms by auto
  then show ?thesis
    by (simp add: group_rows_def length_filter_conv_card)
qed

lemma mean_encoding_idem:
  assumes num: "list_all is_number churn" and len: "length keys = length churn"
  shows "mean_encoding (mean_encoding keys churn) churn = mean_encoding keys churn"
proof -
  let ?n = "length keys"
  let ?x = "\<lambda>j. num_of (churn ! j)"
  let ?G = "\<lambda>v. {j. j < ?n \<and> keys ! j = v}"
  let ?m = "\<lambda>v. churn_mean_of keys churn v"
  let ?e = "mean_encoding keys churn"
  have m_eq: "?m v = (\<Sum>j\<in>?G v. ?x j) / of_nat (card (?G v))" for v
    by (simp add: churn_mean_of_def group_rows_sum [OF num len] group_rows_length [OF len])
  have e_len: "length ?e = length churn" by (simp add: mean_encoding_def len)
  have e_nth: "?e ! j = Num (?m (keys ! j))" if "j < ?n" for j
    using that by (simp add: mean_encoding_def)
  have main: "churn_mean_of ?e churn (?e ! i) = ?m (keys ! i)" if i: "i < ?n" for i
  proof -
    let ?t = "?m (keys ! i)"
    let ?A = "{j. j < ?n \<and> ?m (keys ! j) = ?t}"
    have A_eq: "{j. j < length ?e \<and> ?e ! j = ?e ! i} = ?A"
      using i by (auto simp: e_len len e_nth)
    have fin: "finite ?A" by simp
    have iA: "i \<in> ?A" using i by simp
    then have cardA: "card ?A > 0" using fin by (auto simp: card_gt_0_iff)
    let ?V = "(\<lambda>j. keys ! j) ` ?A"
    have grp: "{a \<in> ?A. keys ! a = v} = ?G v" if "v \<in> ?V" for v
      using that by auto
    have gsum: "(\<Sum>j\<in>?G v. ?x j) = ?t * of_nat (card (?G v))" if v: "v \<in> ?V" for v
    proof -
      from v obtain b where b: "b < ?n" "?m (keys ! b) = ?t" "keys ! b = v" by auto
      then have "b \<in> ?G v" by simp
      then have pos: "card (?G v) > 0" by (auto simp: card_gt_0_iff)
      have "?t = ?m v" using b by simp
      also have "\<dots> = (\<Sum>j\<in>?G v. ?x j) / of_nat (card (?G v))" by (rule m_eq)
      finally have "?t * of_nat (card (?G v)) =
          (\<Sum>j\<in>?G v. ?x j) / of_nat (card (?G v)) * of_nat (card (?G v))" by simp
      also have "\<dots> = (\<Sum>j\<in>?G v. ?x j)"
      proof -
        have nz: "(of_nat (card (?G v)) :: rat) \<noteq> 0" using b by auto
        show ?thesis
          by (simp only: times_divide_eq_left nonzero_mult_div_cancel_right [OF nz])
      qed
      finally show ?thesis by simp
    qed
    have "(\<Sum>j\<in>?A. ?x j) = (\<Sum>v\<in>?V. \<Sum>j\<in>{a \<in> ?A. keys ! a = v}. ?x j)"
      by (rule sum.group [symmetric]) auto
    also have "\<dots> = (\<Sum>v\<in>?V. ?t * of_nat (card {a \<in> ?A. keys ! a = v}))"
      by (rule sum.cong) (simp_all only: grp gsum)
    also have "\<dots> = ?t * of_nat (\<Sum>v\<in>?V. card {a \<in> ?A. keys ! a = v})"
      by (simp add: sum_distrib_left)
    also have "(\<Sum>v\<in>?V. card {a \<in> ?A. keys ! a = v}) = card ?A"
      using sum.group [of ?A ?V "\<lambda>j. keys ! j" "\<lambda>_. 1::nat"] by simp
    finally have sumA: "(\<Sum>j\<in>?A. ?x j) = ?t * of_nat (card ?A)" .
    have nzA: "(of_nat (card ?A) :: rat) \<noteq> 0"
      using cardA by (simp only: of_nat_eq_0_iff)
    have "churn_mean_of ?e churn (?e ! i) = (\<Sum>j\<in>?A. ?x j) / of_nat (card ?A)"
    proof -
      have "churn_mean_of ?e churn (?e ! i) =
          sum_list (numbers (group_rows ?e churn (?e ! i))) /
          of_nat (length (group_rows ?e churn (?e ! i)))"
        by (simp only: churn_mean_of_def [of ?e])
      also have "sum_list (numbers (group_rows ?e churn (?e ! i))) = (\<Sum>j\<in>?A. ?x j)"
        by (simp only: group_rows_sum [OF num e_len] A_eq)
      also have "length (group_rows ?e churn (?e ! i)) = card ?A"
        by (simp only: group_rows_length [OF e_len] A_eq)
      finally show ?thesis .
    qed
    also have "\<dots> = ?t"
      by (simp only: sumA nonzero_mult_div_cancel_right [OF nzA])
    finally show ?thesis .
  qed
  have "mean_encoding ?e churn = map (\<lambda>j. Num (churn_mean_of ?e churn (?e ! j))) [0..<?n]"
    unfolding mean_encoding_def [of ?e]
    by (rule nth_equalityI) (simp_all add: e_len len)
  also have "\<dots> = map (\<lambda>j. Num (?m (keys ! j))) [0..<?n]"
    by (rule map_cong [OF refl]) (simp add: main)
  also have "\<dots> = ?e"
    by (rule nth_equalityI) (simp_all add: mean_encoding_def)
  finally show ?thesis .
qed

section \<open>The encoding loop\<close>

lemma encoder_loop_frame:
  "encoder_loop s e cats resp = (r, s') \<Longrightarrow> length s' = length s \<and> (\<forall>i. i \<noteq> e \<longrightarrow> s' ! i = s ! i)"
proof (induction cats arbitrary: s)
  case Nil
  then show ?case by simp
next
  case (Cons c cats)
  show ?case
  proof (cases "encode_column (s ! e) c")
    case (Inl err)
    with Cons.prems show ?thesis by simp
  next
    case (Inr col)
    with Cons.prems have "encoder_loop (s[e := setitem (s ! e) (encoded_name c resp) col]) e cats resp = (r, s')"
      by simp
    from Cons.IH [OF this] show ?thesis by simp
  qed
qed

lemma encoded_name_inj: "encoded_name c resp = encoded_name c' resp \<Longrightarrow> c = c'"
  by (simp add: encoded_name_def split: if_splits)

lemma encoded_name_not_Churn: "resp \<noteq> [] \<Longrightarrow> encoded_name c resp \<noteq> ''Churn''"
proof
  assume r: "resp \<noteq> []" and eq: "encoded_name c resp = ''Churn''"
  have "CHR ''_'' \<in> set (encoded_name c resp)" using r by (simp add: encoded_name_def)
  with eq show False by simp
qed

lemma encoder_loop_error:
  assumes "encoder_loop s e cats resp = (Some err, s')" "e < length s"
    and "getitem (s ! e) k = Inr col" "numeric col"
    and "k \<notin> set cats" "k \<notin> (\<lambda>c. encoded_name c resp) ` set cats"
  shows "err = KeyError"
  using assms
proof (induction cats arbitrary: s)
  case Nil
  then show ?case by simp
next
  case (Cons c cats)
  have kc: "k \<noteq> c" "k \<noteq> encoded_name c resp" using Cons.prems(5,6) by auto
  show ?case
  proof (cases "encode_column (s ! e) c")
    case (Inl x)
    with Cons.prems(1) have "x = err" by simp
    with encode_column_error [OF Inl Cons.prems(3,4) kc(1)] show ?thesis by simp
  next
    case (Inr column_lst)
    let ?s1 = "s[e := setitem (s ! e) (encoded_name c resp) column_lst]"
    from Inr Cons.prems(1) have loop: "encoder_loop ?s1 e cats resp = (Some err, s')" by simp
    have e1: "e < length ?s1" using Cons.prems(2) by simp
    have k1: "getitem (?s1 ! e) k = Inr col"
      using Cons.prems(2,3) kc(2) by (simp add: getitem_setitem)
    have r: "k \<notin> set cats" "k \<notin> (\<lambda>c. encoded_name c resp) ` set cats"
      using Cons.prems(5,6) by auto
    from Cons.IH [OF loop e1 k1 Cons.prems(4) r] show ?thesis .
  qed
qed

lemma encoder_loop_untouched:
  assumes "encoder_loop s e cats resp = (r, s')" "e < length s"
    and "k \<notin> (\<lambda>c. encoded_name c resp) ` set cats"
  shows "getitem (s' ! e) k = getitem (s ! e) k \<and> df_index (s' ! e) = df_index (s ! e)"
  using assms
proof (induction cats arbitrary: s)
  case Nil
  then show ?case by simp
next
  case (Cons c cats)
  show ?case
  proof (cases "encode_column (s ! e) c")
    case (Inl x)
    with Cons.prems show ?thesis by simp
  next
    case (Inr col)
    let ?s1 = "s[e := setitem (s ! e) (encoded_name c resp) col]"
    from Inr Cons.prems have loop: "encoder_loop ?s1 e cats resp = (r, s')" by simp
    have e1: "e < length ?s1" using Cons.prems by simp
    have k: "k \<notin> (\<lambda>c. encoded_name c resp) ` set cats" "k \<noteq> encoded_name c resp"
      using Cons.prems by auto
    from Cons.IH [OF loop e1 k(1)] show ?thesis
      using Cons.prems(2) k(2) by (simp add: getitem_setitem df_index_setitem)
  qed
qed

lemma encoder_loop_names:
  assumes "encoder_loop s e cats resp = (None, s')" "e < length s"
  shows "set (column_names (s' ! e)) =
         set (column_names (s ! e)) \<union> (\<lambda>c. encoded_name c resp) ` set cats"
  using assms
proof (induction cats arbitrary: s)
  case Nil
  then show ?case by simp
next
  case (Cons c cats)
  show ?case
  proof (cases "encode_column (s ! e) c")
    case (Inl x)
    with Cons.prems show ?thesis by simp
  next
    case (Inr col)
    let ?s1 = "s[e := setitem (s ! e) (encoded_name c resp) col]"
    from Inr Cons.prems have loop: "encoder_loop ?s1 e cats resp = (None, s')" by simp
    have e1: "e < length ?s1" using Cons.prems by simp
    from Cons.IH [OF loop e1] show ?thesis
      using Cons.prems(2) by (simp add: column_names_setitem)
  qed
qed

lemma later_categories_freshI:
  assumes "\<forall>i j. i < j \<longrightarrow> j < length cats \<longrightarrow> cats ! j \<noteq> encoded_name (cats ! i) resp"
  shows "later_categories_fresh resp cats"
  using assms
proof (induction cats)
  case Nil
  then show ?case by simp
next
  case (Cons c cats)
  have "encoded_name c resp \<notin> set cats"
  proof
    assume "encoded_name c resp \<in> set cats"
    then obtain k where k: "k < length cats" "cats ! k = encoded_name c resp"
      by (auto simp: in_set_conv_nth)
    from Cons.prems have "0 < Suc k \<longrightarrow> Suc k < length (c # cats) \<longrightarrow>
        (c # cats) ! Suc k \<noteq> encoded_name ((c # cats) ! 0) resp"
      by blast
    with k show False by simp
  qed
  moreover have "\<forall>i j. i < j \<longrightarrow> j < length cats \<longrightarrow> cats ! j \<noteq> encoded_name (cats ! i) resp"
  proof (intro allI impI)
    fix i j assume ij: "i < j" "j < length cats"
    from Cons.prems have "Suc i < Suc j \<longrightarrow> Suc j < length (c # cats) \<longrightarrow>
        (c # cats) ! Suc j \<noteq> encoded_name ((c # cats) ! Suc i) resp"
      by blast
    with ij show "cats ! j \<noteq> encoded_name (cats ! i) resp" by simp
  qed
  ultimately show ?case using Cons.IH by simp
qed

text \<open>The loop, from a state in which some listed columns may already be encoded in place.\<close>

lemma encoder_loop_columns:
  assumes "encoder_loop s e cats resp = (None, s')" "e < length s"
    and "getitem (s ! e) ''Churn'' = Inr churn" "list_all is_number churn"
    and "\<forall>c\<in>set cats. length (K c) = length churn \<and>
           (getitem (s ! e) c = Inr (K c) \<or>
            (resp = [] \<and> getitem (s ! e) c = Inr (mean_encoding (K c) churn)))"
    and "resp \<noteq> [] \<longrightarrow> later_categories_fresh resp cats"
  shows "\<forall>c\<in>set cats. getitem (s' ! e) (encoded_name c resp) = Inr (mean_encoding (K c) churn)"
  using assms
proof (induction cats arbitrary: s)
  case Nil
  then show ?case by simp
next
  case (Cons c cats)
  let ?df = "s ! e"
  let ?w = "encoded_name c resp"
  from Cons.prems(1) obtain col where enc: "encode_column ?df c = Inr col"
    by (cases "encode_column ?df c") auto
  let ?s1 = "s[e := setitem ?df ?w col]"
  from enc Cons.prems(1) have loop: "encoder_loop ?s1 e cats resp = (None, s')" by simp
  have e1: "e < length ?s1" using Cons.prems(2) by simp
  have s1e: "?s1 ! e = setitem ?df ?w col" using Cons.prems(2) by simp
  have lenK: "length (K c) = length churn" using Cons.prems(5) by simp
  have col: "col = mean_encoding (K c) churn" and cC: "c \<noteq> ''Churn''"
  proof -
    from Cons.prems(5) consider
      (raw) "getitem ?df c = Inr (K c)" |
      (encoded) "resp = []" "getitem ?df c = Inr (mean_encoding (K c) churn)"
      by auto
    then have "col = mean_encoding (K c) churn \<and> c \<noteq> ''Churn''"
    proof cases
      case raw
      from encode_column_Inr [OF enc Cons.prems(3) Cons.prems(4) raw lenK] show ?thesis by simp
    next
      case encoded
      have l: "length (mean_encoding (K c) churn) = length churn"
        by (simp add: mean_encoding_def lenK)
      from encode_column_Inr [OF enc Cons.prems(3) Cons.prems(4) encoded(2) l]
      show ?thesis by (simp add: mean_encoding_idem [OF Cons.prems(4) lenK])
    qed
    then show "col = mean_encoding (K c) churn" and "c \<noteq> ''Churn''" by simp_all
  qed
  have wC: "?w \<noteq> ''Churn''"
  proof (cases "resp = []")
    case True
    then show ?thesis using cC by (simp add: encoded_name_def)
  next
    case False
    then show ?thesis by (rule encoded_name_not_Churn)
  qed
  have churn1: "getitem (?s1 ! e) ''Churn'' = Inr churn"
    using wC Cons.prems(3) by (simp add: s1e getitem_setitem)
  have inv1: "\<forall>c'\<in>set cats. length (K c') = length churn \<and>
           (getitem (?s1 ! e) c' = Inr (K c') \<or>
            (resp = [] \<and> getitem (?s1 ! e) c' = Inr (mean_encoding (K c') churn)))"
  proof
    fix c' assume c': "c' \<in> set cats"
    with Cons.prems(5) have old: "length (K c') = length churn \<and>
           (getitem ?df c' = Inr (K c') \<or>
            (resp = [] \<and> getitem ?df c' = Inr (mean_encoding (K c') churn)))"
      by simp
    show "length (K c') = length churn \<and>
           (getitem (?s1 ! e) c' = Inr (K c') \<or>
            (resp = [] \<and> getitem (?s1 ! e) c' = Inr (mean_encoding (K c') churn)))"
    proof (cases "c' = ?w")
      case True
      have r: "resp = []"
      proof (rule ccontr)
        assume "resp \<noteq> []"
        with Cons.prems(6) have "?w \<notin> set cats" by simp
        with True c' show False by simp
      qed
      then have "c' = c" using True by (simp add: encoded_name_def)
      then show ?thesis using old r True col Cons.prems(2) by (simp add: getitem_setitem)
    next
      case False
      then show ?thesis using old by (simp add: s1e getitem_setitem)
    qed
  qed
  have nocol1: "resp \<noteq> [] \<longrightarrow> later_categories_fresh resp cats"
    using Cons.prems(6) by simp
  from Cons.IH [OF loop e1 churn1 Cons.prems(4) inv1 nocol1]
  have rest: "\<forall>c'\<in>set cats. getitem (s' ! e) (encoded_name c' resp) = Inr (mean_encoding (K c') churn)" .
  have "getitem (s' ! e) ?w = Inr (mean_encoding (K c) churn)"
  proof (cases "c \<in> set cats")
    case True
    with rest show ?thesis by simp
  next
    case False
    then have "?w \<notin> (\<lambda>c. encoded_name c resp) ` set cats"
      by (auto dest: encoded_name_inj)
    from encoder_loop_untouched [OF loop e1 this]
    show ?thesis using Cons.prems(2) by (simp add: getitem_setitem col)
  qed
  with rest show ?case by simp
qed

lemma wf_getitem: "wf_dataframe df \<Longrightarrow> getitem df k = Inr col \<Longrightarrow> length col = length (df_index df)"
  by (auto simp: wf_dataframe_def getitem_def list_all_iff split: option.splits dest!: map_of_SomeD)

lemma encoder_loop_index:
  "encoder_loop s e cats resp = (r, s') \<Longrightarrow> e < length s \<Longrightarrow> df_index (s' ! e) = df_index (s ! e)"
proof (induction cats arbitrary: s)
  case Nil
  then show ?case by simp
next
  case (Cons c cats)
  show ?case
  proof (cases "encode_column (s ! e) c")
    case (Inl x)
    with Cons.prems show ?thesis by simp
  next
    case (Inr col)
    let ?s1 = "s[e := setitem (s ! e) (encoded_name c resp) col]"
    from Inr Cons.prems have loop: "encoder_loop ?s1 e cats resp = (r, s')" by simp
    have e1: "e < length ?s1" using Cons.prems by simp
    from Cons.IH [OF loop e1] show ?thesis
      using Cons.prems(2) by (simp add: df_index_setitem)
  qed
qed

lemma encoder_loop_present:
  assumes "encoder_loop s e cats resp = (None, s')" "e < length s"
    and "resp \<noteq> [] \<longrightarrow> later_categories_fresh resp cats"
  shows "\<forall>c\<in>set cats. c \<in> set (column_names (s ! e))"
  using assms
proof (induction cats arbitrary: s)
  case Nil
  then show ?case by simp
next
  case (Cons c cats)
  let ?w = "encoded_name c resp"
  from Cons.prems(1) obtain col where enc: "encode_column (s ! e) c = Inr col"
    by (cases "encode_column (s ! e) c") auto
  let ?s1 = "s[e := setitem (s ! e) ?w col]"
  from enc Cons.prems(1) have loop: "encoder_loop ?s1 e cats resp = (None, s')" by simp
  have e1: "e < length ?s1" using Cons.prems(2) by simp
  from enc obtain keys where "getitem (s ! e) c = Inr keys"
    by (auto simp: encode_column_def groupby_mean_churn_def split: sum.splits if_splits)
  then have c: "c \<in> set (column_names (s ! e))"
    using getitem_Inr_iff by blast
  have nc: "resp \<noteq> [] \<longrightarrow> later_categories_fresh resp cats"
    using Cons.prems(3) by simp
  from Cons.IH [OF loop e1 nc]
  have rest: "\<forall>c'\<in>set cats. c' \<in> insert ?w (set (column_names (s ! e)))"
    using Cons.prems(2) by (simp add: column_names_setitem)
  have "c' \<in> set (column_names (s ! e))" if c': "c' \<in> set cats" for c'
  proof (cases "c' = ?w")
    case True
    have "resp = []"
    proof (rule ccontr)
      assume "resp \<noteq> []"
      with Cons.prems(3) have "?w \<notin> set cats" by simp
      with True c' show False by simp
    qed
    with True have "c' = c" by (simp add: encoded_name_def)
    with c show ?thesis by simp
  next
    case False
    with rest c' show ?thesis by auto
  qed
  with c show ?case by simp
qed

lemma encoder_helper_Inr:
  "encoder_helper s d cats resp = (Inr enc, s') \<Longrightarrow>
     enc = length s \<and> encoder_loop (s @ [s ! d]) (length s) cats resp = (None, s')"
  by (auto simp: encoder_helper_def copy_deep_def split: prod.splits option.splits)

lemma encoder_helper_Inl:
  assumes "encoder_helper s d cats resp = (Inl e, s')"
    and "getitem (s ! d) k = Inr col" "numeric col"
    and "k \<notin> set cats" "k \<notin> (\<lambda>c. encoded_name c resp) ` set cats"
  shows "e = KeyError"
proof -
  from assms(1) have loop: "encoder_loop (s @ [s ! d]) (length s) cats resp = (Some e, s')"
    by (auto simp: encoder_helper_def copy_deep_def split: prod.splits option.splits)
  have k: "getitem ((s @ [s ! d]) ! length s) k = Inr col" using assms(2) by simp
  show ?thesis
    by (rule encoder_loop_error [OF loop _ k assms(3-5)]) simp
qed

lemma encoder_loop_total:
  assumes "e < length s"
    and "getitem (s ! e) ''Churn'' = Inr churn" "list_all is_number churn"
    and "\<forall>c\<in>set cats. c \<noteq> ''Churn'' \<and> length (K c) = length churn \<and> NaN \<notin> set (K c) \<and>
           (getitem (s ! e) c = Inr (K c) \<or>
            (resp = [] \<and> getitem (s ! e) c = Inr (mean_encoding (K c) churn)))"
    and "resp \<noteq> [] \<longrightarrow> later_categories_fresh resp cats"
  shows "\<exists>s'. encoder_loop s e cats resp = (None, s')"
  using assms
proof (induction cats arbitrary: s)
  case Nil
  then show ?case by simp
next
  case (Cons c cats)
  let ?df = "s ! e"
  let ?w = "encoded_name c resp"
  have cC: "c \<noteq> ''Churn''" and lenK: "length (K c) = length churn" and nan: "NaN \<notin> set (K c)"
    using Cons.prems(4) by simp_all
  from Cons.prems(4) consider
    (raw) "getitem ?df c = Inr (K c)" |
    (encoded) "resp = []" "getitem ?df c = Inr (mean_encoding (K c) churn)"
    by auto
  then have enc: "encode_column ?df c = Inr (mean_encoding (K c) churn)"
  proof cases
    case raw
    from encode_column_total [OF Cons.prems(2) Cons.prems(3) raw lenK nan cC] show ?thesis .
  next
    case encoded
    have l: "length (mean_encoding (K c) churn) = length churn"
      by (simp add: mean_encoding_def lenK)
    have n: "NaN \<notin> set (mean_encoding (K c) churn)"
      by (auto simp: mean_encoding_def)
    from encode_column_total [OF Cons.prems(2) Cons.prems(3) encoded(2) l n cC]
    show ?thesis by (simp add: mean_encoding_idem [OF Cons.prems(3) lenK])
  qed
  let ?s1 = "s[e := setitem ?df ?w (mean_encoding (K c) churn)]"
  have e1: "e < length ?s1" using Cons.prems(1) by simp
  have wC: "?w \<noteq> ''Churn''"
  proof (cases "resp = []")
    case True
    then show ?thesis using cC by (simp add: encoded_name_def)
  next
    case False
    then show ?thesis by (rule encoded_name_not_Churn)
  qed
  have churn1: "getitem (?s1 ! e) ''Churn'' = Inr churn"
    using wC Cons.prems(1,2) by (simp add: getitem_setitem)
  have inv1: "\<forall>c'\<in>set cats. c' \<noteq> ''Churn'' \<and> length (K c') = length churn \<and> NaN \<notin> set (K c') \<and>
           (getitem (?s1 ! e) c' = Inr (K c') \<or>
            (resp = [] \<and> getitem (?s1 ! e) c' = Inr (mean_encoding (K c') churn)))"
  proof
    fix c' assume c': "c' \<in> set cats"
    with Cons.prems(4) have old: "c' \<noteq> ''Churn'' \<and> length (K c') = length churn \<and> NaN \<notin> set (K c') \<and>
           (getitem ?df c' = Inr (K c') \<or>
            (resp = [] \<and> getitem ?df c' = Inr (mean_encoding (K c') churn)))"
      by simp
    show "c' \<noteq> ''Churn'' \<and> length (K c') = length churn \<and> NaN \<notin> set (K c') \<and>
           (getitem (?s1 ! e) c' = Inr (K c') \<or>
            (resp = [] \<and> getitem (?s1 ! e) c' = Inr (mean_encoding (K c') churn)))"
    proof (cases "c' = ?w")
      case True
      have r: "resp = []"
      proof (rule ccontr)
        assume "resp \<noteq> []"
        with Cons.prems(5) have "?w \<notin> set cats" by simp
        with True c' show False by simp
      qed
      then have "c' = c" using True by (simp add: encoded_name_def)
      then show ?thesis using old r True Cons.prems(1) by (simp add: getitem_setitem)
    next
      case False
      then show ?thesis using old Cons.prems(1) by (simp add: getitem_setitem)
    qed
  qed
  have nocol1: "resp \<noteq> [] \<longrightarrow> later_categories_fresh resp cats"
    using Cons.prems(5) by simp
  from Cons.IH [OF e1 churn1 Cons.prems(3) inv1 nocol1]
  obtain s' where "encoder_loop ?s1 e cats resp = (None, s')" by blast
  with enc show ?case by simp
qed

lemma encoder_helper_returns:
  assumes wf: "wf_dataframe (s ! dataframe)"
    and churn: "getitem (s ! dataframe) ''Churn'' = Inr churn"
    and num: "list_all is_number churn"
    and cats: "\<forall>c\<in>set category_lst. c \<noteq> ''Churn'' \<and>
                 (\<exists>keys. getitem (s ! dataframe) c = Inr keys \<and> NaN \<notin> set keys)"
    and order: "response \<noteq> [] \<longrightarrow>
                  (\<forall>i j. i < j \<longrightarrow> j < length category_lst \<longrightarrow>
                       category_lst ! j \<noteq> encoded_name (category_lst ! i) response)"
  shows "\<exists>s'. encoder_helper s dataframe category_lst response = (Inr (length s), s')"
proof -
  let ?T = "s ! dataframe"
  let ?s0 = "s @ [?T]"
  let ?e = "length s"
  have e: "?e < length ?s0" by simp
  have T: "?s0 ! ?e = ?T" by simp
  define K where "K c = (case getitem ?T c of Inr keys \<Rightarrow> keys | Inl x \<Rightarrow> [])" for c
  have lenC: "length churn = length (df_index ?T)" by (rule wf_getitem [OF wf churn])
  have inv: "\<forall>c\<in>set category_lst. c \<noteq> ''Churn'' \<and> length (K c) = length churn \<and> NaN \<notin> set (K c) \<and>
           (getitem (?s0 ! ?e) c = Inr (K c) \<or>
            (response = [] \<and> getitem (?s0 ! ?e) c = Inr (mean_encoding (K c) churn)))"
  proof
    fix c assume "c \<in> set category_lst"
    with cats obtain keys where c: "c \<noteq> ''Churn''" "getitem ?T c = Inr keys" "NaN \<notin> set keys"
      by blast
    then have k: "K c = keys" by (simp add: K_def)
    have "length keys = length churn" using wf_getitem [OF wf c(2)] lenC by simp
    with c k show "c \<noteq> ''Churn'' \<and> length (K c) = length churn \<and> NaN \<notin> set (K c) \<and>
           (getitem (?s0 ! ?e) c = Inr (K c) \<or>
            (response = [] \<and> getitem (?s0 ! ?e) c = Inr (mean_encoding (K c) churn)))"
      by (simp only: T) simp
  qed
  have churn0: "getitem (?s0 ! ?e) ''Churn'' = Inr churn" using churn by (simp only: T)
  have fresh: "response \<noteq> [] \<longrightarrow> later_categories_fresh response category_lst"
    using order by (blast intro: later_categories_freshI)
  from encoder_loop_total [OF e churn0 num inv fresh]
  obtain s' where "encoder_loop ?s0 ?e category_lst response = (None, s')" by blast
  then show ?thesis by (simp add: encoder_helper_def copy_deep_def)
qed

section \<open>The encoded table\<close>

text \<open>
  C6. Whatever \<open>encoder_helper\<close> does, raising included, every object that was in the
  store before the call, the caller's table among them, is afterwards what it was. The
  store has one object more, the copy; when the function returns, it returns the
  reference of that new object, whose rows are those of the input, whose columns are
  those of the input together with the encoded ones (added under a response, replacing
  the category columns without one), and every column that is not an encoded one is
  the input's.
\<close>

theorem encoder_helper_frame:
  assumes "encoder_helper s dataframe category_lst response = (res, s')"
  shows "length s' = Suc (length s) \<and> (\<forall>r<length s. s' ! r = s ! r)
       \<and> (\<forall>enc. res = Inr enc \<longrightarrow>
             enc = length s
           \<and> df_index (s' ! enc) = df_index (s ! dataframe)
           \<and> set (column_names (s' ! enc)) =
               set (column_names (s ! dataframe)) \<union> (\<lambda>c. encoded_name c response) ` set category_lst
           \<and> (\<forall>k. k \<notin> (\<lambda>c. encoded_name c response) ` set category_lst \<longrightarrow>
                 getitem (s' ! enc) k = getitem (s ! dataframe) k))"
proof -
  obtain r0 where loop: "encoder_loop (s @ [s ! dataframe]) (length s) category_lst response = (r0, s')"
    and r0: "res = (case r0 of None \<Rightarrow> Inr (length s) | Some e \<Rightarrow> Inl e)"
    using assms by (auto simp: encoder_helper_def copy_deep_def split: prod.splits option.splits)
  have e: "length s < length (s @ [s ! dataframe])" by simp
  have copy: "(s @ [s ! dataframe]) ! length s = s ! dataframe" by simp
  from encoder_loop_frame [OF loop]
  have len: "length s' = Suc (length s)" and
    fr: "\<forall>i. i \<noteq> length s \<longrightarrow> s' ! i = (s @ [s ! dataframe]) ! i"
    by simp_all
  have old: "\<forall>r<length s. s' ! r = s ! r"
    using fr by (simp add: nth_append)
  have new: "enc = length s
           \<and> df_index (s' ! enc) = df_index (s ! dataframe)
           \<and> set (column_names (s' ! enc)) =
               set (column_names (s ! dataframe)) \<union> (\<lambda>c. encoded_name c response) ` set category_lst
           \<and> (\<forall>k. k \<notin> (\<lambda>c. encoded_name c response) ` set category_lst \<longrightarrow>
                 getitem (s' ! enc) k = getitem (s ! dataframe) k)"
    if res: "res = Inr enc" for enc
  proof -
    from res r0 have enc: "enc = length s" and none: "r0 = None"
      by (auto split: option.splits)
    from loop none have loop': "encoder_loop (s @ [s ! dataframe]) (length s) category_lst response = (None, s')"
      by simp
    have "df_index (s' ! enc) = df_index (s ! dataframe)"
      using encoder_loop_index [OF loop e] by (simp add: enc)
    moreover have "set (column_names (s' ! enc)) =
        set (column_names (s ! dataframe)) \<union> (\<lambda>c. encoded_name c response) ` set category_lst"
      using encoder_loop_names [OF loop' e] by (simp add: enc)
    moreover have "\<forall>k. k \<notin> (\<lambda>c. encoded_name c response) ` set category_lst \<longrightarrow>
        getitem (s' ! enc) k = getitem (s ! dataframe) k"
      using encoder_loop_untouched [OF loop e] by (simp add: enc)
    ultimately show ?thesis using enc by simp
  qed
  from len old new show ?thesis by blast
qed

text \<open>The ten customers, encoded under the response \<open>Churn\<close>: the loaded table is untouched.\<close>

theorem encoder_helper_frame_witness:
  "snd (encoder_helper [bank_loaded] 0 cat_columns ''Churn'') ! 0 = bank_loaded
   \<and> fst (encoder_helper [bank_loaded] 0 cat_columns ''Churn'') = Inr 1
   \<and> length (snd (encoder_helper [bank_loaded] 0 cat_columns ''Churn'')) = 2
   \<and> df_index (snd (encoder_helper [bank_loaded] 0 cat_columns ''Churn'') ! 1) =
       df_index bank_loaded
   \<and> getitem (snd (encoder_helper [bank_loaded] 0 cat_columns ''Churn'') ! 1) ''Gender'' =
       getitem bank_loaded ''Gender''"
proof -
  obtain res s' where eq: "encoder_helper [bank_loaded] 0 cat_columns ''Churn'' = (res, s')"
    by (cases "encoder_helper [bank_loaded] 0 cat_columns ''Churn''")
  have "fst (encoder_helper [bank_loaded] 0 cat_columns ''Churn'') = Inr 1"
    by code_simp
  with eq have res: "res = Inr 1" by simp
  have k: "''Gender'' \<notin> (\<lambda>c. encoded_name c ''Churn'') ` set cat_columns"
    by (simp add: cat_columns_def encoded_name_def)
  from encoder_helper_frame [OF eq] res k
  have "length s' = 2" "s' ! 0 = bank_loaded" "df_index (s' ! 1) = df_index bank_loaded"
    "getitem (s' ! 1) ''Gender'' = getitem bank_loaded ''Gender''"
    by simp_all
  with eq res show ?thesis by simp
qed

lemma singleton_group_mean:
  assumes num: "list_all is_number churn" and len: "length keys = length churn"
    and i: "i < length keys" and uniq: "\<forall>j<length keys. keys ! j = keys ! i \<longrightarrow> j = i"
  shows "Num (churn_mean_of keys churn (keys ! i)) = churn ! i"
proof -
  have G: "{j. j < length keys \<and> keys ! j = keys ! i} = {i}"
    using i uniq by auto
  have "churn_mean_of keys churn (keys ! i) = num_of (churn ! i)"
    by (simp add: churn_mean_of_def group_rows_sum [OF num len] group_rows_length [OF len] G)
  moreover have "is_number (churn ! i)"
    using num i len by (simp add: list_all_length)
  then have "Num (num_of (churn ! i)) = churn ! i"
    by (cases "churn ! i") (simp_all add: is_number_def num_of_def)
  ultimately show ?thesis by simp
qed

text \<open>
  C2, amended. Take a well-formed input table whose \<open>Churn\<close> column holds numbers
  only, and a call of \<open>encoder_helper\<close> that returns, where under a non-empty response
  no listed category is named \<open>category_response\<close> after a category listed before it.
  Then for every listed category and every row, the value in the encoded column is the
  arithmetic mean of \<open>Churn\<close> over the rows of the input table that share the row's
  category value; a category value that occurs in one row only encodes to that row's
  own \<open>Churn\<close>. A category listed twice without a response is encoded from its own
  encoding the second time, which is the same column again.
\<close>

theorem encoder_helper_group_means:
  assumes run: "encoder_helper s dataframe category_lst response = (Inr enc, s')"
    and wf: "wf_dataframe (s ! dataframe)"
    and churn: "getitem (s ! dataframe) ''Churn'' = Inr churn"
    and num: "list_all is_number churn"
    and order: "response \<noteq> [] \<longrightarrow>
                  (\<forall>i j. i < j \<longrightarrow> j < length category_lst \<longrightarrow>
                       category_lst ! j \<noteq> encoded_name (category_lst ! i) response)"
    and cat: "category \<in> set category_lst"
  shows "\<exists>keys col.
           getitem (s ! dataframe) category = Inr keys
         \<and> getitem (s' ! enc) (encoded_name category response) = Inr col
         \<and> length col = length keys
         \<and> (\<forall>i<length keys.
               col ! i = Num (churn_mean_of keys churn (keys ! i))
             \<and> ((\<forall>j<length keys. keys ! j = keys ! i \<longrightarrow> j = i) \<longrightarrow> col ! i = churn ! i))"
proof -
  let ?T = "s ! dataframe"
  let ?s0 = "s @ [?T]"
  let ?e = "length s"
  from encoder_helper_Inr [OF run] have enc: "enc = ?e" and
    loop: "encoder_loop ?s0 ?e category_lst response = (None, s')"
    by simp_all
  have e: "?e < length ?s0" by simp
  have T: "?s0 ! ?e = ?T" by simp
  define K where "K c = (case getitem ?T c of Inr keys \<Rightarrow> keys | Inl x \<Rightarrow> [])" for c
  have fresh: "response \<noteq> [] \<longrightarrow> later_categories_fresh response category_lst"
    using order by (blast intro: later_categories_freshI)
  have present: "\<forall>c\<in>set category_lst. c \<in> set (column_names ?T)"
    using encoder_loop_present [OF loop e fresh] by (simp only: T)
  have K: "getitem ?T c = Inr (K c)" if "c \<in> set category_lst" for c
  proof -
    from present that obtain keys where "getitem ?T c = Inr keys"
      using getitem_Inr_iff by blast
    then show ?thesis by (simp add: K_def)
  qed
  have lenC: "length churn = length (df_index ?T)" by (rule wf_getitem [OF wf churn])
  have lenK: "length (K c) = length churn" if "c \<in> set category_lst" for c
    using wf_getitem [OF wf K [OF that]] lenC by simp
  have inv: "\<forall>c\<in>set category_lst. length (K c) = length churn \<and>
           (getitem (?s0 ! ?e) c = Inr (K c) \<or>
            (response = [] \<and> getitem (?s0 ! ?e) c = Inr (mean_encoding (K c) churn)))"
    using K lenK by (simp only: T) blast
  have churn0: "getitem (?s0 ! ?e) ''Churn'' = Inr churn" using churn by (simp only: T)
  from encoder_loop_columns [OF loop e churn0 num inv fresh] cat
  have col: "getitem (s' ! enc) (encoded_name category response) = Inr (mean_encoding (K category) churn)"
    by (simp add: enc)
  let ?keys = "K category"
  let ?col = "mean_encoding ?keys churn"
  have "length ?col = length ?keys" by (simp add: mean_encoding_def)
  moreover have "\<forall>i<length ?keys.
               ?col ! i = Num (churn_mean_of ?keys churn (?keys ! i))
             \<and> ((\<forall>j<length ?keys. ?keys ! j = ?keys ! i \<longrightarrow> j = i) \<longrightarrow> ?col ! i = churn ! i)"
    using singleton_group_mean [OF num lenK [OF cat]]
    by (simp add: mean_encoding_def)
  ultimately show ?thesis using K [OF cat] col by blast
qed

text \<open>
  Two rows of category A with churn 0 and 1 both encode to one half, the single row of
  B to its own 1. And with the categories \<open>A_x\<close> and \<open>A\<close> in this order and the
  response \<open>x\<close>, the column \<open>A_x\<close> is read before the pass of \<open>A\<close> overwrites it:
  its encoding \<open>A_x_x\<close> holds the means over the input's groups.
\<close>

theorem encoder_helper_group_means_witness:
  "(\<exists>col. getitem (snd (encoder_helper [two_groups] 0 [''Category''] ''Churn'') ! 1)
            ''Category_Churn'' = Inr col
      \<and> col ! 0 = Num (1 / 2) \<and> col ! 1 = Num (1 / 2) \<and> col ! 2 = Num 1)
   \<and> (\<exists>col. getitem (snd (encoder_helper [overwritten] 0 [''A_x'', ''A''] ''x'') ! 1)
            ''A_x_x'' = Inr col
      \<and> col ! 0 = Num 0 \<and> col ! 1 = Num 1)"
proof -
  have run: "encoder_helper [two_groups] 0 [''Category''] ''Churn'' =
      (Inr 1, snd (encoder_helper [two_groups] 0 [''Category''] ''Churn''))"
    by code_simp
  have wf: "wf_dataframe ([two_groups] ! 0)" by code_simp
  have churn: "getitem ([two_groups] ! 0) ''Churn'' = Inr [Num 0, Num 1, Num 1]" by code_simp
  have num: "list_all is_number [Num 0, Num 1, Num 1]" by code_simp
  have order: "''Churn'' \<noteq> [] \<longrightarrow>
      (\<forall>i j. i < j \<longrightarrow> j < length [''Category''] \<longrightarrow>
           [''Category''] ! j \<noteq> encoded_name ([''Category''] ! i) ''Churn'')"
    by simp
  have cat: "''Category'' \<in> set [''Category'']" by simp
  from encoder_helper_group_means [OF run wf churn num order cat]
  obtain keys col where
    keys: "getitem ([two_groups] ! 0) ''Category'' = Inr keys" and
    col: "getitem (snd (encoder_helper [two_groups] 0 [''Category''] ''Churn'') ! 1)
            (encoded_name ''Category'' ''Churn'') = Inr col" and
    rows: "\<forall>i<length keys. col ! i = Num (churn_mean_of keys [Num 0, Num 1, Num 1] (keys ! i))
             \<and> ((\<forall>j<length keys. keys ! j = keys ! i \<longrightarrow> j = i) \<longrightarrow> col ! i = [Num 0, Num 1, Num 1] ! i)"
    by blast
  have "getitem ([two_groups] ! 0) ''Category'' = Inr [Str ''A'', Str ''A'', Str ''B'']"
    by code_simp
  with keys have k: "keys = [Str ''A'', Str ''A'', Str ''B'']" by simp
  have m: "churn_mean_of [Str ''A'', Str ''A'', Str ''B''] [Num 0, Num 1, Num 1] (Str ''A'') = 1 / 2"
    "churn_mean_of [Str ''A'', Str ''A'', Str ''B''] [Num 0, Num 1, Num 1] (Str ''B'') = 1"
    by (simp_all add: churn_mean_of_def group_rows_def)
  from rows have "col ! 0 = Num (1 / 2)" "col ! 1 = Num (1 / 2)" "col ! 2 = Num 1"
    by (simp_all add: k m)
  moreover have "encoded_name ''Category'' ''Churn'' = ''Category_Churn''"
    by (simp add: encoded_name_def)
  ultimately have first: "\<exists>col. getitem (snd (encoder_helper [two_groups] 0 [''Category''] ''Churn'') ! 1)
            ''Category_Churn'' = Inr col
      \<and> col ! 0 = Num (1 / 2) \<and> col ! 1 = Num (1 / 2) \<and> col ! 2 = Num 1"
    using col by simp
  have run2: "encoder_helper [overwritten] 0 [''A_x'', ''A''] ''x'' =
      (Inr 1, snd (encoder_helper [overwritten] 0 [''A_x'', ''A''] ''x''))"
    by code_simp
  have wf2: "wf_dataframe ([overwritten] ! 0)" by code_simp
  have churn2: "getitem ([overwritten] ! 0) ''Churn'' = Inr [Num 0, Num 1]" by code_simp
  have num2: "list_all is_number [Num 0, Num 1]" by code_simp
  have order2: "''x'' \<noteq> [] \<longrightarrow>
      (\<forall>i j. i < j \<longrightarrow> j < length [''A_x'', ''A''] \<longrightarrow>
           [''A_x'', ''A''] ! j \<noteq> encoded_name ([''A_x'', ''A''] ! i) ''x'')"
    by (auto simp: encoded_name_def less_Suc_eq)
  have cat2: "''A_x'' \<in> set [''A_x'', ''A'']" by simp
  from encoder_helper_group_means [OF run2 wf2 churn2 num2 order2 cat2]
  obtain keys2 col2 where
    keys2: "getitem ([overwritten] ! 0) ''A_x'' = Inr keys2" and
    col2: "getitem (snd (encoder_helper [overwritten] 0 [''A_x'', ''A''] ''x'') ! 1)
            (encoded_name ''A_x'' ''x'') = Inr col2" and
    rows2: "\<forall>i<length keys2. col2 ! i = Num (churn_mean_of keys2 [Num 0, Num 1] (keys2 ! i))
             \<and> ((\<forall>j<length keys2. keys2 ! j = keys2 ! i \<longrightarrow> j = i) \<longrightarrow> col2 ! i = [Num 0, Num 1] ! i)"
    by blast
  have "getitem ([overwritten] ! 0) ''A_x'' = Inr [Num 7, Num 8]" by code_simp
  with keys2 have k2: "keys2 = [Num 7, Num 8]" by simp
  have m2: "churn_mean_of [Num 7, Num 8] [Num 0, Num 1] (Num 7) = 0"
    "churn_mean_of [Num 7, Num 8] [Num 0, Num 1] (Num 8) = 1"
    by (simp_all add: churn_mean_of_def group_rows_def)
  from rows2 have "col2 ! 0 = Num 0" "col2 ! 1 = Num 1"
    by (simp_all add: k2 m2)
  moreover have "encoded_name ''A_x'' ''x'' = ''A_x_x''"
    by (simp add: encoded_name_def)
  ultimately have second: "\<exists>col. getitem (snd (encoder_helper [overwritten] 0 [''A_x'', ''A''] ''x'') ! 1)
            ''A_x_x'' = Inr col \<and> col ! 0 = Num 0 \<and> col ! 1 = Num 1"
    using col2 by simp
  from first second show ?thesis by blast
qed

text \<open>
  C2 as stated fails where a listed category is named like the encoded column of a
  category listed before it. With the categories \<open>A\<close> and \<open>A_x\<close> and the response \<open>x\<close>, the first pass
  overwrites the column \<open>A_x\<close> with the encoding of \<open>A\<close>, and the second pass groups
  by that: row 0 gets one half in \<open>A_x_x\<close>, where the mean of \<open>Churn\<close> over the input
  rows that share its value 7 of \<open>A_x\<close> is 0.
\<close>

theorem encoder_helper_overwritten_category:
  "fst (encoder_helper [overwritten] 0 [''A'', ''A_x''] ''x'') = Inr 1
   \<and> getitem (snd (encoder_helper [overwritten] 0 [''A'', ''A_x''] ''x'') ! 1) ''A_x_x''
       = Inr [Num (1 / 2), Num (1 / 2)]
   \<and> getitem overwritten ''A_x'' = Inr [Num 7, Num 8]
   \<and> getitem overwritten ''Churn'' = Inr [Num 0, Num 1]
   \<and> churn_mean_of [Num 7, Num 8] [Num 0, Num 1] (Num 7) = 0"
  by code_simp

section \<open>The feature matrix and the split\<close>

lemma select_columns_Inr:
  "select_columns df names = Inr cols \<Longrightarrow>
     map fst cols = names \<and> set names \<subseteq> set (column_names df)"
proof (induction names arbitrary: cols)
  case Nil
  then show ?case by simp
next
  case (Cons n names)
  from Cons.prems obtain col rest where
    g: "getitem df n = Inr col" and r: "select_columns df names = Inr rest" and
    c: "cols = (n, col) # rest"
    by (auto split: sum.splits)
  from g have "n \<in> set (column_names df)" using getitem_Inr_iff by blast
  with Cons.IH [OF r] c show ?case by simp
qed

lemma select_columns_error: "select_columns df names = Inl e \<Longrightarrow> e = KeyError"
  by (induction names arbitrary: e) (auto split: sum.splits dest: getitem_error)

lemma select_columns_missing:
  "\<not> set names \<subseteq> set (column_names df) \<Longrightarrow> select_columns df names = Inl KeyError"
  by (cases "select_columns df names") (auto dest: select_columns_error select_columns_Inr)

lemma set_column_fresh:
  "name \<notin> fst ` set cols \<Longrightarrow> set_column cols name col = cols @ [(name, col)]"
  by (induction cols name col rule: set_column.induct) auto

lemma fold_setitem_fresh:
  assumes "distinct keys" "length sel = length keys" "set keys \<inter> fst ` set cols = {}"
  shows "fold (\<lambda>kc features. setitem features (fst kc) (snd (snd kc))) (zip keys sel)
           \<lparr>df_index = idx, df_columns = cols\<rparr> =
         \<lparr>df_index = idx, df_columns = cols @ zip keys (map snd sel)\<rparr>"
  using assms
proof (induction keys arbitrary: sel cols)
  case Nil
  then show ?case by simp
next
  case (Cons k keys)
  from Cons.prems(2) obtain x sel' where sel: "sel = x # sel'" by (cases sel) auto
  have fresh: "k \<notin> fst ` set cols" using Cons.prems(3) by auto
  have d: "distinct keys" and l: "length sel' = length keys"
    using Cons.prems sel by simp_all
  have i: "set keys \<inter> fst ` set (cols @ [(k, snd x)]) = {}"
    using Cons.prems(1,3) by auto
  show ?case
    using Cons.IH [OF d l i]
    by (simp add: sel setitem_def set_column_fresh [OF fresh])
qed

lemma assign_columns_eq:
  "distinct keys \<Longrightarrow> length sel = length keys \<Longrightarrow>
     assign_columns idx keys sel = \<lparr>df_index = idx, df_columns = zip keys (map snd sel)\<rparr>"
  using fold_setitem_fresh [of keys sel "[]" idx] by (simp add: assign_columns_def)

lemma distinct_keep_cols: "distinct keep_cols"
  by (simp add: keep_cols_def)

lemma feature_matrix_Inr:
  assumes "feature_matrix s d resp = Inr (features, label)"
  shows "column_names features = keep_cols \<and> df_index features = df_index (s ! d)
         \<and> s_index label = df_index (s ! d)"
proof -
  from assms obtain enc s1 churn selected where
    eh: "encoder_helper s d cat_columns resp = (Inr enc, s1)" and
    sel: "select_columns (s1 ! enc) keep_cols = Inr selected" and
    f: "features = assign_columns (df_index (s1 ! enc)) keep_cols selected" and
    l: "label = \<lparr>s_index = df_index (s1 ! enc), s_values = churn\<rparr>"
    by (auto simp: feature_matrix_def split: prod.splits sum.splits)
  from encoder_helper_Inr [OF eh] have enc: "enc = length s" and
    loop: "encoder_loop (s @ [s ! d]) (length s) cat_columns resp = (None, s1)"
    by simp_all
  from encoder_loop_index [OF loop] have idx: "df_index (s1 ! enc) = df_index (s ! d)"
    by (simp add: enc)
  from select_columns_Inr [OF sel] have m: "map fst selected = keep_cols" by simp
  then have len: "length selected = length keep_cols" by (metis length_map)
  have "features = \<lparr>df_index = df_index (s1 ! enc), df_columns = zip keep_cols (map snd selected)\<rparr>"
    unfolding f by (rule assign_columns_eq [OF distinct_keep_cols len])
  then have "column_names features = keep_cols" "df_index features = df_index (s1 ! enc)"
    using len by (simp_all add: column_names_def)
  with idx l show ?thesis by simp
qed

lemma column_names_iloc: "column_names (iloc df rows) = column_names df"
  by (simp add: iloc_def column_names_def comp_def)

lemma df_index_iloc: "df_index (iloc df rows) = map (\<lambda>i. df_index df ! i) rows"
  by (simp add: iloc_def)

lemma train_test_split_Inr:
  assumes "train_test_split np features label random_state = Inr r"
  shows "x_train_split r = iloc features
           (take (length (df_index features) - (3 * length (df_index features) + 9) div 10)
              (drop ((3 * length (df_index features) + 9) div 10)
                 (rng_permutation np (check_random_state np random_state)
                    (length (df_index features)))))
       \<and> x_test_split r = iloc features
           (take ((3 * length (df_index features) + 9) div 10)
              (rng_permutation np (check_random_state np random_state)
                 (length (df_index features))))
       \<and> y_train_split r = iloc_series label
           (take (length (df_index features) - (3 * length (df_index features) + 9) div 10)
              (drop ((3 * length (df_index features) + 9) div 10)
                 (rng_permutation np (check_random_state np random_state)
                    (length (df_index features)))))
       \<and> y_test_split r = iloc_series label
           (take ((3 * length (df_index features) + 9) div 10)
              (rng_permutation np (check_random_state np random_state)
                 (length (df_index features))))
       \<and> (3 * length (df_index features) + 9) div 10 < length (df_index features)"
  using assms by (auto simp: train_test_split_def Let_def split: if_splits)

lemma perform_feature_engineering_Inr:
  assumes "perform_feature_engineering np s dataframe response = Inr r"
  shows "\<exists>features label.
           feature_matrix s dataframe response = Inr (features, label)
         \<and> train_test_split np features label (Some 42) = Inr r"
  using assms by (auto simp: perform_feature_engineering_def split: sum.splits prod.splits)

lemma select_columns_total:
  "set names \<subseteq> set (column_names df) \<Longrightarrow> \<exists>cols. select_columns df names = Inr cols"
proof (induction names)
  case Nil
  then show ?case by simp
next
  case (Cons n names)
  then obtain cols where "select_columns df names = Inr cols" by auto
  moreover from Cons.prems obtain col where "getitem df n = Inr col"
    using getitem_Inr_iff [of df n] by auto
  ultimately show ?case by simp
qed

lemma encoder_loop_reads_churn:
  assumes "encoder_loop s e (c # cats) resp = (None, s')"
  shows "\<exists>churn. getitem (s ! e) ''Churn'' = Inr churn"
proof -
  from assms obtain column_lst where "encode_column (s ! e) c = Inr column_lst"
    by (cases "encode_column (s ! e) c") auto
  then show ?thesis
    by (auto simp: encode_column_def groupby_mean_churn_def split: sum.splits if_splits)
qed

lemma churn_not_encoded: "''Churn'' \<notin> (\<lambda>c. encoded_name c response) ` set cat_columns"
  by (auto simp: cat_columns_def encoded_name_def split: if_splits)

lemma mset_rotate_eq: "mset (rotate n xs) = mset xs"
  by (metis rotate_drop_take mset_append add.commute append_take_drop_id)

lemma bank_run: "\<not> isl (perform_feature_engineering toy_numpy [bank_loaded] 0 ''Churn'')"
  by code_simp

text \<open>
  C3. Whenever the encoder returns and the 19 listed columns are present in the encoded
  table, \<open>perform_feature_engineering\<close> builds a feature matrix with exactly the 19
  columns of the fixed list, the 14 raw ones and then the 5 encoded ones, in that
  order; and the train and the test part it returns have these columns in this order.
\<close>

theorem perform_feature_engineering_columns:
  assumes enc: "encoder_helper s dataframe cat_columns response = (Inr encoded_df, s1)"
    and present: "set keep_cols \<subseteq> set (column_names (s1 ! encoded_df))"
  shows "\<exists>features label.
           feature_matrix s dataframe response = Inr (features, label)
         \<and> column_names features =
             [''Customer_Age'', ''Dependent_count'', ''Months_on_book'',
              ''Total_Relationship_Count'', ''Months_Inactive_12_mon'',
              ''Contacts_Count_12_mon'', ''Credit_Limit'', ''Total_Revolving_Bal'',
              ''Avg_Open_To_Buy'', ''Total_Amt_Chng_Q4_Q1'', ''Total_Trans_Amt'',
              ''Total_Trans_Ct'', ''Total_Ct_Chng_Q4_Q1'', ''Avg_Utilization_Ratio'',
              ''Gender_Churn'', ''Education_Level_Churn'', ''Marital_Status_Churn'',
              ''Income_Category_Churn'', ''Card_Category_Churn'']
         \<and> length (column_names features) = 19
         \<and> (\<forall>r. perform_feature_engineering np s dataframe response = Inr r \<longrightarrow>
               column_names (x_train_split r) = column_names features
             \<and> column_names (x_test_split r) = column_names features)"
proof -
  from encoder_helper_Inr [OF enc] have e: "encoded_df = length s" and
    loop: "encoder_loop (s @ [s ! dataframe]) (length s) cat_columns response = (None, s1)"
    by simp_all
  have lt: "length s < length (s @ [s ! dataframe])" by simp
  from loop obtain churn where "getitem ((s @ [s ! dataframe]) ! length s) ''Churn'' = Inr churn"
    unfolding cat_columns_def by (blast dest: encoder_loop_reads_churn)
  moreover from encoder_loop_untouched [OF loop lt churn_not_encoded]
  have "getitem (s1 ! length s) ''Churn'' = getitem ((s @ [s ! dataframe]) ! length s) ''Churn''"
    by simp
  ultimately have churn: "getitem (s1 ! encoded_df) ''Churn'' = Inr churn"
    by (simp add: e)
  from select_columns_total [OF present] obtain selected where
    sel: "select_columns (s1 ! encoded_df) keep_cols = Inr selected"
    by blast
  let ?features = "assign_columns (df_index (s1 ! encoded_df)) keep_cols selected"
  let ?label = "\<lparr>s_index = df_index (s1 ! encoded_df), s_values = churn\<rparr>"
  have fm: "feature_matrix s dataframe response = Inr (?features, ?label)"
    by (simp add: feature_matrix_def enc churn sel)
  from feature_matrix_Inr [OF fm] have names: "column_names ?features = keep_cols" by blast
  have split: "column_names (x_train_split r) = column_names ?features
             \<and> column_names (x_test_split r) = column_names ?features"
    if r: "perform_feature_engineering np s dataframe response = Inr r" for r
  proof -
    from r fm have "train_test_split np ?features ?label (Some 42) = Inr r"
      by (simp add: perform_feature_engineering_def)
    from train_test_split_Inr [OF this] show ?thesis
      by (simp add: column_names_iloc)
  qed
  from fm names split show ?thesis
    by (intro exI [of _ ?features] exI [of _ ?label]) (simp add: keep_cols_def)
qed

text \<open>The ten customers under the response \<open>Churn\<close>: the split is returned, with the 19 columns.\<close>

theorem perform_feature_engineering_columns_witness:
  "\<exists>r. perform_feature_engineering toy_numpy [bank_loaded] 0 ''Churn'' = Inr r
     \<and> column_names (x_train_split r) = keep_cols
     \<and> column_names (x_test_split r) = keep_cols"
proof -
  from bank_run obtain r where
    r: "perform_feature_engineering toy_numpy [bank_loaded] 0 ''Churn'' = Inr r"
    by (cases "perform_feature_engineering toy_numpy [bank_loaded] 0 ''Churn''") auto
  have enc: "encoder_helper [bank_loaded] 0 cat_columns ''Churn'' =
      (Inr 1, snd (encoder_helper [bank_loaded] 0 cat_columns ''Churn''))"
    by code_simp
  have present: "set keep_cols \<subseteq>
      set (column_names (snd (encoder_helper [bank_loaded] 0 cat_columns ''Churn'') ! 1))"
    by code_simp
  from perform_feature_engineering_columns [OF enc present, of toy_numpy]
  obtain features where
    names: "column_names features = keep_cols" and
    parts: "\<forall>r. perform_feature_engineering toy_numpy [bank_loaded] 0 ''Churn'' = Inr r \<longrightarrow>
               column_names (x_train_split r) = column_names features
             \<and> column_names (x_test_split r) = column_names features"
    by (auto simp: keep_cols_def)
  from parts r names show ?thesis by auto
qed

text \<open>
  C4. Whenever \<open>perform_feature_engineering\<close> returns, and the generator seeded with 42
  draws a permutation of the row positions, the train rows and the test rows together
  are the rows of the input table, each once; the test part has \<open>ceil(3 n / 10)\<close> of the
  \<open>n\<close> rows and the train part the other \<open>floor(7 n / 10)\<close>; the labels are split as the
  features are; and every column of a part has one cell per row of the part.
\<close>

theorem perform_feature_engineering_row_counts:
  assumes run: "perform_feature_engineering np s dataframe response = Inr r"
    and perm: "mset (rng_permutation np (RandomState np 42) (length (df_index (s ! dataframe)))) =
               mset [0..<length (df_index (s ! dataframe))]"
  shows "length (df_index (x_train_split r)) + length (df_index (x_test_split r)) =
           length (df_index (s ! dataframe))
       \<and> length (df_index (x_test_split r)) = (3 * length (df_index (s ! dataframe)) + 9) div 10
       \<and> 3 * length (df_index (s ! dataframe)) \<le> 10 * length (df_index (x_test_split r))
       \<and> 10 * length (df_index (x_test_split r)) < 3 * length (df_index (s ! dataframe)) + 10
       \<and> 10 * length (df_index (x_train_split r)) \<le> 7 * length (df_index (s ! dataframe))
       \<and> 7 * length (df_index (s ! dataframe)) < 10 * length (df_index (x_train_split r)) + 10
       \<and> s_index (y_train_split r) = df_index (x_train_split r)
       \<and> s_index (y_test_split r) = df_index (x_test_split r)
       \<and> mset (df_index (x_train_split r)) + mset (df_index (x_test_split r)) =
           mset (df_index (s ! dataframe))
       \<and> list_all (\<lambda>nc. length (snd nc) = length (df_index (x_train_split r)))
             (df_columns (x_train_split r))
       \<and> list_all (\<lambda>nc. length (snd nc) = length (df_index (x_test_split r)))
             (df_columns (x_test_split r))
       \<and> length (s_values (y_train_split r)) = length (df_index (x_train_split r))
       \<and> length (s_values (y_test_split r)) = length (df_index (x_test_split r))"
proof -
  let ?idx = "df_index (s ! dataframe)"
  let ?n = "length ?idx"
  let ?p = "rng_permutation np (RandomState np 42) ?n"
  let ?t = "(3 * ?n + 9) div 10"
  from perform_feature_engineering_Inr [OF run] obtain features label where
    fm: "feature_matrix s dataframe response = Inr (features, label)" and
    sp: "train_test_split np features label (Some 42) = Inr r"
    by blast
  from feature_matrix_Inr [OF fm] have fi: "df_index features = ?idx" and li: "s_index label = ?idx"
    by simp_all
  from train_test_split_Inr [OF sp] have
    xtr: "x_train_split r = iloc features (take (?n - ?t) (drop ?t ?p))" and
    xte: "x_test_split r = iloc features (take ?t ?p)" and
    ytr: "y_train_split r = iloc_series label (take (?n - ?t) (drop ?t ?p))" and
    yte: "y_test_split r = iloc_series label (take ?t ?p)" and
    lt: "?t < ?n"
    by (simp_all add: fi check_random_state_def)
  have lp: "length ?p = ?n"
    using perm by (metis mset_eq_length length_upt diff_zero)
  have dr: "take (?n - ?t) (drop ?t ?p) = drop ?t ?p"
    by (simp add: lp)
  have tr: "df_index (x_train_split r) = map (\<lambda>i. ?idx ! i) (drop ?t ?p)"
    by (simp add: xtr dr df_index_iloc fi)
  have te: "df_index (x_test_split r) = map (\<lambda>i. ?idx ! i) (take ?t ?p)"
    by (simp add: xte df_index_iloc fi)
  have ltr: "length (df_index (x_train_split r)) = ?n - ?t" by (simp add: tr lp)
  have lte: "length (df_index (x_test_split r)) = ?t" using lt by (simp add: te lp)
  have "mset (df_index (x_train_split r)) + mset (df_index (x_test_split r)) =
        mset (map (\<lambda>i. ?idx ! i) (take ?t ?p @ drop ?t ?p))"
    by (simp only: tr te mset_append map_append add.commute)
  also have "\<dots> = image_mset (\<lambda>i. ?idx ! i) (mset ?p)"
    by (simp only: append_take_drop_id mset_map)
  also have "\<dots> = mset (map (\<lambda>i. ?idx ! i) [0..<?n])"
    by (simp only: perm mset_map)
  also have "map (\<lambda>i. ?idx ! i) [0..<?n] = ?idx" by (rule map_nth)
  finally have part: "mset (df_index (x_train_split r)) + mset (df_index (x_test_split r)) = mset ?idx" .
  have ys: "s_index (y_train_split r) = df_index (x_train_split r)"
    "s_index (y_test_split r) = df_index (x_test_split r)"
    by (simp_all add: xtr xte ytr yte iloc_series_def df_index_iloc fi li)
  have cells: "list_all (\<lambda>nc. length (snd nc) = length (df_index (x_train_split r)))
             (df_columns (x_train_split r))"
    "list_all (\<lambda>nc. length (snd nc) = length (df_index (x_test_split r)))
             (df_columns (x_test_split r))"
    "length (s_values (y_train_split r)) = length (df_index (x_train_split r))"
    "length (s_values (y_test_split r)) = length (df_index (x_test_split r))"
    by (simp_all add: xtr xte ytr yte iloc_def iloc_series_def list_all_iff)
  have arith: "(?n - ?t) + ?t = ?n" "3 * ?n \<le> 10 * ?t" "10 * ?t < 3 * ?n + 10"
    "10 * (?n - ?t) \<le> 7 * ?n" "7 * ?n < 10 * (?n - ?t) + 10"
    using lt by arith+
  from arith have counts: "length (df_index (x_train_split r)) + length (df_index (x_test_split r)) = ?n"
    "length (df_index (x_test_split r)) = ?t"
    "3 * ?n \<le> 10 * length (df_index (x_test_split r))"
    "10 * length (df_index (x_test_split r)) < 3 * ?n + 10"
    "10 * length (df_index (x_train_split r)) \<le> 7 * ?n"
    "7 * ?n < 10 * length (df_index (x_train_split r)) + 10"
    by (simp_all only: ltr lte)
  from counts ys part cells show ?thesis by blast
qed

text \<open>The ten customers are split into seven train rows and three test rows.\<close>

theorem perform_feature_engineering_row_counts_witness:
  "\<exists>r. perform_feature_engineering toy_numpy [bank_loaded] 0 ''Churn'' = Inr r
     \<and> length (df_index (x_train_split r)) = 7
     \<and> length (df_index (x_test_split r)) = 3"
proof -
  from bank_run obtain r where
    r: "perform_feature_engineering toy_numpy [bank_loaded] 0 ''Churn'' = Inr r"
    by (cases "perform_feature_engineering toy_numpy [bank_loaded] 0 ''Churn''") auto
  have n: "length (df_index bank_loaded) = 10" by code_simp
  have perm: "mset (rng_permutation toy_numpy (RandomState toy_numpy 42)
        (length (df_index ([bank_loaded] ! 0)))) =
      mset [0..<length (df_index ([bank_loaded] ! 0))]"
    by (simp add: toy_numpy_def mset_rotate_eq)
  from perform_feature_engineering_row_counts [OF r perm] r show ?thesis
    by (simp add: n)
qed

text \<open>
  Without a seed the split is drawn from the global generator, and two runs that start
  with that generator in different states split the same table differently.
\<close>

lemma train_test_split_unseeded_varies:
  "train_test_split (toy_numpy\<lparr>global_generator := 1\<rparr>)
       \<lparr>df_index = [0, 1, 2], df_columns = []\<rparr> \<lparr>s_index = [0, 1, 2], s_values = [NaN, NaN, NaN]\<rparr>
       None \<noteq>
   train_test_split (toy_numpy\<lparr>global_generator := 2\<rparr>)
       \<lparr>df_index = [0, 1, 2], df_columns = []\<rparr> \<lparr>s_index = [0, 1, 2], s_values = [NaN, NaN, NaN]\<rparr>
       None"
  by code_simp

lemma encoder_loop_same_table:
  assumes "s ! r = s' ! r'" and "r < length s" and "r' < length s'"
  shows "fst (encoder_loop s r cats resp) = fst (encoder_loop s' r' cats resp)
         \<and> snd (encoder_loop s r cats resp) ! r = snd (encoder_loop s' r' cats resp) ! r'"
  using assms
proof (induction cats arbitrary: s s')
  case Nil
  then show ?case by simp
next
  case (Cons category rest)
  show ?case
  proof (cases "encode_column (s ! r) category")
    case (Inl e)
    then show ?thesis
      using Cons.prems by simp
  next
    case (Inr column_lst)
    let ?t = "s[r := setitem (s ! r) (encoded_name category resp) column_lst]"
    let ?t' = "s'[r' := setitem (s' ! r') (encoded_name category resp) column_lst]"
    have "?t ! r = ?t' ! r'" and "r < length ?t" and "r' < length ?t'"
      using Cons.prems by simp_all
    then have "fst (encoder_loop ?t r rest resp) = fst (encoder_loop ?t' r' rest resp)
         \<and> snd (encoder_loop ?t r rest resp) ! r = snd (encoder_loop ?t' r' rest resp) ! r'"
      by (rule Cons.IH)
    then show ?thesis
      using Inr Cons.prems(1) by simp
  qed
qed

lemma feature_matrix_same_table:
  assumes "s ! dataframe = s' ! dataframe'"
  shows "feature_matrix s dataframe response = feature_matrix s' dataframe' response"
proof -
  let ?run = "encoder_loop (s @ [s ! dataframe]) (length s) cat_columns response"
  let ?run' = "encoder_loop (s' @ [s' ! dataframe']) (length s') cat_columns response"
  have "(s @ [s ! dataframe]) ! length s = (s' @ [s' ! dataframe']) ! length s'"
    using assms by simp
  then have same: "fst ?run = fst ?run' \<and> snd ?run ! length s = snd ?run' ! length s'"
    by (rule encoder_loop_same_table) simp_all
  obtain e t where run: "?run = (e, t)"
    by (cases ?run)
  obtain e' t' where run': "?run' = (e', t')"
    by (cases ?run')
  from same run run' have "e' = e" and "t' ! length s' = t ! length s"
    by simp_all
  then show ?thesis
    by (simp add: feature_matrix_def encoder_helper_def copy_deep_def run run'
        split: option.splits sum.splits)
qed

lemma bank_run_other:
  "\<not> isl (perform_feature_engineering (toy_numpy\<lparr>global_generator := 1\<rparr>) [bank_loaded] 0 ''Churn'')"
  by code_simp

text \<open>
  C7. Two runs of \<open>perform_feature_engineering\<close> on the same table and response return
  the same thing: the same error, or the same rows in the train part and the same rows
  in the test part. The runs may differ in everything else of their environment: the
  state \<open>g\<close> and \<open>g'\<close> of the global random generator, the other objects \<open>s\<close> and \<open>s'\<close> of
  the memory, and where in it the table lies. The split passes the seed 42, so it draws
  from a generator of its own that the seed initialises, not from the one of the run.
\<close>

theorem perform_feature_engineering_seeded:
  assumes "s ! dataframe = s' ! dataframe'"
  shows "perform_feature_engineering (np\<lparr>global_generator := g\<rparr>) s dataframe response =
         perform_feature_engineering (np\<lparr>global_generator := g'\<rparr>) s' dataframe' response"
proof -
  have seeded: "check_random_state (np\<lparr>global_generator := h\<rparr>) (Some 42) = RandomState np 42"
    for h
    by (simp add: check_random_state_def)
  have "train_test_split (np\<lparr>global_generator := g\<rparr>) features label (Some 42) =
        train_test_split (np\<lparr>global_generator := g'\<rparr>) features label (Some 42)"
    for features label
    by (simp add: train_test_split_def Let_def seeded)
  then show ?thesis
    by (simp add: perform_feature_engineering_def feature_matrix_same_table [OF assms]
        split: sum.splits prod.splits)
qed

text \<open>
  The ten customers, once alone in the memory and once behind another table, with the
  global generator in two states: both runs return the same split, and it is a split.
\<close>

theorem perform_feature_engineering_seeded_witness:
  "[bank_loaded] ! 0 = [two_groups, bank_loaded] ! 1
   \<and> perform_feature_engineering (toy_numpy\<lparr>global_generator := 1\<rparr>) [bank_loaded] 0 ''Churn'' =
     perform_feature_engineering (toy_numpy\<lparr>global_generator := 2\<rparr>) [two_groups, bank_loaded] 1
       ''Churn''
   \<and> \<not> isl (perform_feature_engineering (toy_numpy\<lparr>global_generator := 1\<rparr>) [bank_loaded] 0
             ''Churn'')"
  using perform_feature_engineering_seeded
    [where s = "[bank_loaded]" and dataframe = 0 and s' = "[two_groups, bank_loaded]"
       and dataframe' = 1 and np = toy_numpy and g = 1 and g' = 2 and response = "''Churn''"]
    bank_run_other
  by simp


lemma encoded_name_not_kept:
  assumes "response \<noteq> ''Churn''" "c \<in> set cat_columns"
  shows "encoded_name c response \<notin>
     set [''Gender_Churn'', ''Education_Level_Churn'', ''Marital_Status_Churn'',
          ''Income_Category_Churn'', ''Card_Category_Churn'']"
  using assms by (auto simp: cat_columns_def encoded_name_def split: if_splits)

lemma raw_column_not_category:
  assumes "k \<in> set (take 14 keep_cols)"
  shows "k \<notin> set cat_columns \<and> k \<notin> (\<lambda>c. encoded_name c response) ` set cat_columns"
  using assms by (auto simp: keep_cols_def cat_columns_def encoded_name_def split: if_splits)

text \<open>
  C10, amended. On a table that holds one of the 14 raw columns as a numeric column and
  lacks at least one of the five columns \<open>Gender_Churn\<close>, \<open>Education_Level_Churn\<close>,
  \<open>Marital_Status_Churn\<close>, \<open>Income_Category_Churn\<close>, \<open>Card_Category_Churn\<close>, a call
  with a response other than \<open>Churn\<close> raises a key error: the encoder names its columns
  after the response, never as the fixed list has them.
\<close>

theorem perform_feature_engineering_key_error:
  assumes resp: "response \<noteq> ''Churn''"
    and raw: "k \<in> set (take 14 keep_cols)" "getitem (s ! dataframe) k = Inr col" "numeric col"
    and missing: "\<not> set [''Gender_Churn'', ''Education_Level_Churn'', ''Marital_Status_Churn'',
                         ''Income_Category_Churn'', ''Card_Category_Churn'']
                    \<subseteq> set (column_names (s ! dataframe))"
  shows "perform_feature_engineering np s dataframe response = Inl KeyError"
proof -
  let ?five = "[''Gender_Churn'', ''Education_Level_Churn'', ''Marital_Status_Churn'',
                ''Income_Category_Churn'', ''Card_Category_Churn'']"
  obtain res s1 where eh: "encoder_helper s dataframe cat_columns response = (res, s1)"
    by (cases "encoder_helper s dataframe cat_columns response")
  from raw_column_not_category [OF raw(1), of response]
  have k: "k \<notin> set cat_columns" "k \<notin> (\<lambda>c. encoded_name c response) ` set cat_columns"
    by simp_all
  have "feature_matrix s dataframe response = Inl KeyError"
  proof (cases res)
    case (Inl e)
    from encoder_helper_Inl [OF eh [unfolded Inl] raw(2,3) k] have "e = KeyError" .
    with eh Inl show ?thesis by (simp add: feature_matrix_def)
  next
    case (Inr enc)
    from encoder_helper_Inr [OF eh [unfolded Inr]] have enc: "enc = length s" and
      loop: "encoder_loop (s @ [s ! dataframe]) (length s) cat_columns response = (None, s1)"
      by simp_all
    have names: "set (column_names (s1 ! enc)) =
        set (column_names (s ! dataframe)) \<union> (\<lambda>c. encoded_name c response) ` set cat_columns"
      using encoder_loop_names [OF loop] by (simp add: enc)
    from missing obtain m where m: "m \<in> set ?five" "m \<notin> set (column_names (s ! dataframe))"
      by blast
    have "m \<notin> (\<lambda>c. encoded_name c response) ` set cat_columns"
      using encoded_name_not_kept [OF resp] m(1) by blast
    with m(2) names have "m \<notin> set (column_names (s1 ! enc))" by simp
    moreover have "m \<in> set keep_cols" using m(1) by (auto simp: keep_cols_def)
    ultimately have "\<not> set keep_cols \<subseteq> set (column_names (s1 ! enc))" by blast
    then have sel: "select_columns (s1 ! enc) keep_cols = Inl KeyError"
      by (rule select_columns_missing)
    show ?thesis
    proof (cases "getitem (s1 ! enc) ''Churn''")
      case (Inl e)
      then have "e = KeyError" by (auto dest: getitem_error)
      with Inl eh Inr show ?thesis by (simp add: feature_matrix_def)
    next
      case (Inr churn)
      with eh \<open>res = Inr enc\<close> sel show ?thesis by (simp add: feature_matrix_def)
    qed
  qed
  then show ?thesis by (simp add: perform_feature_engineering_def)
qed

text \<open>
  C10 as stated fails on a table that holds the five \<open>_Churn\<close> columns already, such as
  the one \<open>encoder_helper\<close> returned for the response \<open>Churn\<close>: with the response
  \<open>Attrition\<close> the call returns, and the feature matrix has the 19 columns.
\<close>

theorem perform_feature_engineering_encoded_input:
  "(case perform_feature_engineering toy_numpy
           (snd (encoder_helper [bank_loaded] 0 cat_columns ''Churn'')) 1 ''Attrition'' of
      Inl e \<Rightarrow> False
    | Inr r \<Rightarrow> column_names (x_train_split r) = keep_cols \<and> length (df_index (x_train_split r)) = 7)
   \<and> set (take 14 keep_cols) \<union> set cat_columns
       \<subseteq> set (column_names (snd (encoder_helper [bank_loaded] 0 cat_columns ''Churn'') ! 1))"
  by code_simp

text \<open>The ten customers, with the 14 raw and the 5 categorical columns, under the response \<open>Attrition\<close>.\<close>

theorem perform_feature_engineering_key_error_witness:
  "perform_feature_engineering toy_numpy [bank_loaded] 0 ''Attrition'' = Inl KeyError
   \<and> set (take 14 keep_cols) \<union> set cat_columns \<subseteq> set (column_names bank_loaded)"
proof -
  have r: "''Attrition'' \<noteq> ''Churn''" by simp
  have k: "''Customer_Age'' \<in> set (take 14 keep_cols)" by (simp add: keep_cols_def)
  have g: "getitem ([bank_loaded] ! 0) ''Customer_Age'' =
      Inr (map Num [45, 49, 51, 40, 40, 44, 51, 32, 37, 48])"
    by code_simp
  have n: "numeric (map Num [45, 49, 51, 40, 40, 44, 51, 32, 37, 48])" by code_simp
  have m: "\<not> set [''Gender_Churn'', ''Education_Level_Churn'', ''Marital_Status_Churn'',
                    ''Income_Category_Churn'', ''Card_Category_Churn'']
            \<subseteq> set (column_names ([bank_loaded] ! 0))"
    by code_simp
  have c: "set (take 14 keep_cols) \<union> set cat_columns \<subseteq> set (column_names bank_loaded)"
    by code_simp
  from perform_feature_engineering_key_error [OF r k g n m] c show ?thesis by simp
qed

section \<open>The report images\<close>

text \<open>
  In the random-forest image the train report stands under the train heading and the
  test report under the test heading. In the logistic-regression image they are
  exchanged, for all label vectors.
\<close>

lemma random_forest_blocks:
  "block_under (saved_figure (classification_report_image y_train y_test y_train_preds_lr
       y_train_preds_rf y_test_preds_lr y_test_preds_rf) ''./images/results/rf_results.png'')
     (Text ''Random Forest Train'') = Some (Report y_train y_train_preds_rf)
   \<and> block_under (saved_figure (classification_report_image y_train y_test y_train_preds_lr
       y_train_preds_rf y_test_preds_lr y_test_preds_rf) ''./images/results/rf_results.png'')
     (Text ''Random Forest Test'') = Some (Report y_test y_test_preds_rf)"
  by (simp add: classification_report_image_def saved_figure_def block_under_def plt_text_def)

lemma logistic_blocks:
  "block_under (saved_figure (classification_report_image y_train y_test y_train_preds_lr
       y_train_preds_rf y_test_preds_lr y_test_preds_rf) ''./images/results/logistic_results.png'')
     (Text ''Logistic Regression Train'') = Some (Report y_test y_test_preds_lr)
   \<and> block_under (saved_figure (classification_report_image y_train y_test y_train_preds_lr
       y_train_preds_rf y_test_preds_lr y_test_preds_rf) ''./images/results/logistic_results.png'')
     (Text ''Logistic Regression Test'') = Some (Report y_train y_train_preds_lr)"
  by (simp add: classification_report_image_def saved_figure_def block_under_def plt_text_def)

text \<open>
  C5 asks that in each of the two images the train report be the block under the
  "Train" heading and the test report the block under the "Test" heading. With the
  train labels 0, 1, 0 and the test label 1, the logistic-regression predictions
  0, 1, 1 and 0 and the random-forest predictions 0, 1, 0 and 1: in the
  logistic-regression image the block under "Logistic Regression Train" is the report
  of the test split and the block under "Logistic Regression Test" the report of the
  train split, while the random-forest image has them as asked.
\<close>

theorem classification_report_image_logistic_swapped:
  "block_under (saved_figure (classification_report_image [0, 1, 0] [1] [0, 1, 1] [0, 1, 0] [0] [1])
       ''./images/results/logistic_results.png'') (Text ''Logistic Regression Train'')
     = Some (Report [1] [0])
   \<and> block_under (saved_figure (classification_report_image [0, 1, 0] [1] [0, 1, 1] [0, 1, 0] [0] [1])
       ''./images/results/logistic_results.png'') (Text ''Logistic Regression Test'')
     = Some (Report [0, 1, 0] [0, 1, 1])
   \<and> block_under (saved_figure (classification_report_image [0, 1, 0] [1] [0, 1, 1] [0, 1, 0] [0] [1])
       ''./images/results/rf_results.png'') (Text ''Random Forest Train'')
     = Some (Report [0, 1, 0] [0, 1, 0])
   \<and> block_under (saved_figure (classification_report_image [0, 1, 0] [1] [0, 1, 1] [0, 1, 0] [0] [1])
       ''./images/results/rf_results.png'') (Text ''Random Forest Test'')
     = Some (Report [1] [1])"
  by (simp add: classification_report_image_def saved_figure_def block_under_def plt_text_def)

section \<open>The importance chart\<close>

lemma take_at_Inr: "\<forall>i\<in>set idx. i < length xs \<Longrightarrow> take_at xs idx = Inr (map (\<lambda>i. xs ! i) idx)"
  by (simp add: take_at_def list_all_iff)

text \<open>
  C8. For a model with one importance score per column of the feature matrix, and an
  argsort that returns the positions in an ascending order of the scores,
  \<open>feature_importance_plot\<close> saves a chart with one bar per position \<open>0, 1, ...\<close>,
  the heights descending, the bar and the label at position \<open>i\<close> being the score and
  the column name at the \<open>i\<close>-th position of the reversed argsort: the labels are the
  names permuted as the scores are, and every column appears with its own score.
\<close>

theorem feature_importance_plot_sorted:
  assumes perm: "mset (argsort importances) = mset [0..<length importances]"
    and srt: "sorted (map (\<lambda>i. importances ! i) (argsort importances))"
    and len: "length columns = length importances"
  shows "\<exists>chart. feature_importance_plot argsort importances columns output_pth =
             Inr (output_pth @ ''feature_importances.png'', chart)
           \<and> map fst (bars chart) = [0..<length columns]
           \<and> xticks chart = [0..<length columns]
           \<and> length (xticklabels chart) = length columns
           \<and> sorted (rev (map snd (bars chart)))
           \<and> xticklabels chart = map (\<lambda>i. columns ! i) (rev (argsort importances))
           \<and> map snd (bars chart) = map (\<lambda>i. importances ! i) (rev (argsort importances))
           \<and> mset (zip (xticklabels chart) (map snd (bars chart))) = mset (zip columns importances)"
proof -
  let ?idx = "rev (argsort importances)"
  let ?n = "length importances"
  have set_idx: "set ?idx = {0..<?n}"
    using perm by (metis mset_eq_setD set_rev set_upt)
  have len_idx: "length (argsort importances) = ?n"
    using perm by (metis mset_eq_length length_upt diff_zero)
  have ok1: "\<forall>i\<in>set ?idx. i < length columns" using set_idx len by auto
  have ok2: "\<forall>i\<in>set ?idx. i < length importances" using set_idx by auto
  let ?names = "map (\<lambda>i. columns ! i) ?idx"
  let ?heights = "map (\<lambda>i. importances ! i) ?idx"
  let ?chart = "\<lparr>chart_title = ''Feature Importance'', chart_ylabel = ''Importance'',
      bars = zip [0..<length columns] ?heights, xticks = [0..<length columns],
      xticklabels = ?names\<rparr>"
  have run: "feature_importance_plot argsort importances columns output_pth =
      Inr (output_pth @ ''feature_importances.png'', ?chart)"
    unfolding feature_importance_plot_def Let_def
    by (simp add: take_at_Inr [OF ok1] take_at_Inr [OF ok2] plt_bar_def len_idx len)
  have h: "map snd (zip [0..<length columns] ?heights) = ?heights"
    by (simp add: len len_idx)
  have f: "map fst (zip [0..<length columns] ?heights) = [0..<length columns]"
    by (simp add: len len_idx)
  have desc: "sorted (rev ?heights)"
    using srt by (simp add: rev_map)
  have "zip ?names ?heights = map (\<lambda>i. (columns ! i, importances ! i)) ?idx"
    by (rule nth_equalityI) simp_all
  then have "mset (zip ?names ?heights) = mset (map (\<lambda>i. (columns ! i, importances ! i)) ?idx)"
    by (simp only:)
  also have "\<dots> = image_mset (\<lambda>i. (columns ! i, importances ! i)) (mset [0..<?n])"
    by (simp only: mset_map mset_rev perm)
  also have "\<dots> = mset (map (\<lambda>i. (columns ! i, importances ! i)) [0..<?n])"
    by (simp only: mset_map)
  also have "map (\<lambda>i. (columns ! i, importances ! i)) [0..<?n] = zip columns importances"
    by (rule nth_equalityI) (simp_all add: len)
  finally have ms: "mset (zip ?names ?heights) = mset (zip columns importances)" .
  show ?thesis
    apply (rule exI [of _ ?chart])
    using run h f desc ms by (simp add: len_idx len)
qed

theorem feature_importance_plot_sorted_witness:
  "\<exists>chart. feature_importance_plot stable_argsort [1 / 10, 1 / 2, 2 / 5]
               [''Customer_Age'', ''Total_Trans_Ct'', ''Gender_Churn''] ''./images/results/''
             = Inr (''./images/results/feature_importances.png'', chart)
     \<and> bars chart = [(0, 1 / 2), (1, 2 / 5), (2, 1 / 10)]
     \<and> xticklabels chart = [''Total_Trans_Ct'', ''Gender_Churn'', ''Customer_Age'']"
proof -
  have a: "stable_argsort [1 / 10, 1 / 2, 2 / 5] = [0, 2, 1]" by code_simp
  have perm: "mset (stable_argsort [1 / 10, 1 / 2, 2 / 5]) = mset [0..<length [1 / 10, 1 / 2, 2 / 5 :: rat]]"
    by (simp add: a upt_conv_Cons)
  have srt: "sorted (map (\<lambda>i. [1 / 10, 1 / 2, 2 / 5 :: rat] ! i) (stable_argsort [1 / 10, 1 / 2, 2 / 5]))"
    by (simp add: a)
  have len: "length [''Customer_Age'', ''Total_Trans_Ct'', ''Gender_Churn''] = length [1 / 10, 1 / 2, 2 / 5 :: rat]"
    by simp
  from feature_importance_plot_sorted
    [where argsort = stable_argsort and importances = "[1 / 10, 1 / 2, 2 / 5]"
       and columns = "[''Customer_Age'', ''Total_Trans_Ct'', ''Gender_Churn'']"
       and output_pth = "''./images/results/''", OF perm srt len]
  obtain chart where
    run: "feature_importance_plot stable_argsort [1 / 10, 1 / 2, 2 / 5]
               [''Customer_Age'', ''Total_Trans_Ct'', ''Gender_Churn''] ''./images/results/''
             = Inr (''./images/results/'' @ ''feature_importances.png'', chart)" and
    pos: "map fst (bars chart) = [0..<length [''Customer_Age'', ''Total_Trans_Ct'', ''Gender_Churn'']]" and
    lab: "xticklabels chart = map (\<lambda>i. [''Customer_Age'', ''Total_Trans_Ct'', ''Gender_Churn''] ! i)
             (rev (stable_argsort [1 / 10, 1 / 2, 2 / 5]))" and
    hts: "map snd (bars chart) = map (\<lambda>i. [1 / 10, 1 / 2, 2 / 5 :: rat] ! i)
             (rev (stable_argsort [1 / 10, 1 / 2, 2 / 5]))"
    by blast
  have "bars chart = zip (map fst (bars chart)) (map snd (bars chart))"
    by (simp add: zip_map_fst_snd)
  also have "\<dots> = [(0, 1 / 2), (1, 2 / 5), (2, 1 / 10)]"
    by (simp add: pos hts a upt_conv_Cons)
  finally have b: "bars chart = [(0, 1 / 2), (1, 2 / 5), (2, 1 / 10)]" .
  have l: "xticklabels chart = [''Total_Trans_Ct'', ''Gender_Churn'', ''Customer_Age'']"
    by (simp add: lab a)
  from run b l show ?thesis by simp
qed

section \<open>The seeds of the classifiers\<close>

lemma check_random_state_seeded:
  "check_random_state (np\<lparr>global_generator := g\<rparr>) (Some seed) = RandomState np seed"
  by (simp add: check_random_state_def)

lemma random_state_set_params:
  "rfc_random_state (set_params estimator params) = rfc_random_state estimator"
  by (simp add: set_params_def split: prod.splits)

lemma forest_fit_seeded:
  assumes "rfc_random_state estimator = Some seed"
  shows "RandomForestClassifier_fit (np\<lparr>global_generator := g\<rparr>) sk estimator X y =
         grow_forest sk estimator (RandomState np seed) X y"
  by (simp add: RandomForestClassifier_fit_def assms check_random_state_seeded)

lemma grid_search_seeded:
  assumes "rfc_random_state estimator = Some seed"
  shows "GridSearchCV_fit (np\<lparr>global_generator := g\<rparr>) sk estimator grid cv X y =
         GridSearchCV_fit (np\<lparr>global_generator := g'\<rparr>) sk estimator grid cv X y"
proof -
  have seeded: "rfc_random_state (set_params estimator params) = Some seed" for params
    by (simp add: random_state_set_params assms)
  have fit: "RandomForestClassifier_fit (np\<lparr>global_generator := g\<rparr>) sk
               (set_params estimator params) X' y' =
             RandomForestClassifier_fit (np\<lparr>global_generator := g'\<rparr>) sk
               (set_params estimator params) X' y'"
    for params X' y'
    by (simp only: forest_fit_seeded [OF seeded])
  have "mean_test_score (np\<lparr>global_generator := g\<rparr>) sk estimator folds X y params =
        mean_test_score (np\<lparr>global_generator := g'\<rparr>) sk estimator folds X y params"
    for folds params
    by (simp only: mean_test_score_def fit)
  then have score: "mean_test_score (np\<lparr>global_generator := g\<rparr>) sk estimator folds X y =
        mean_test_score (np\<lparr>global_generator := g'\<rparr>) sk estimator folds X y"
    for folds
    by (rule ext)
  show ?thesis
    by (simp only: GridSearchCV_fit_def score fit)
qed

text \<open>
  A forest without a seed, and a logistic regression without a seed under a solver that
  draws, are fitted from the global generator: two runs that start with it in different
  states fit different models.
\<close>

lemma unseeded_fits_vary:
  "RandomForestClassifier_fit (toy_numpy\<lparr>global_generator := 1\<rparr>) toy_sklearn
       RandomForestClassifier_defaults X y \<noteq>
   RandomForestClassifier_fit (toy_numpy\<lparr>global_generator := 2\<rparr>) toy_sklearn
       RandomForestClassifier_defaults X y
   \<and> LogisticRegression_fit (toy_numpy\<lparr>global_generator := 1\<rparr>) toy_sklearn
       (LogisticRegression_defaults\<lparr>lrc_solver := sag\<rparr>) X y \<noteq>
     LogisticRegression_fit (toy_numpy\<lparr>global_generator := 2\<rparr>) toy_sklearn
       (LogisticRegression_defaults\<lparr>lrc_solver := sag\<rparr>) X y"
  by (simp add: RandomForestClassifier_fit_def LogisticRegression_fit_def solver_draws_def
      check_random_state_def toy_numpy_def toy_sklearn_def
      RandomForestClassifier_defaults_def LogisticRegression_defaults_def)

text \<open>
  C9. The random forest is constructed with the seed 42, and every fit of it, for the
  candidates of the grid search and for the best estimator, draws from a generator that
  this seed initialises. The logistic regression is constructed without a seed and
  with the default solver lbfgs, which draws no random numbers: it has nothing to seed.
  So two runs of the fitting on the same data, in environments that differ in the state
  \<open>g\<close> and \<open>g'\<close> of the global random generator, fit the same two models.
\<close>

theorem train_models_seeded:
  "rfc_random_state rfc = Some 42
   \<and> lrc_random_state lrc = None
   \<and> lrc_solver lrc = lbfgs
   \<and> \<not> solver_draws (lrc_solver lrc)
   \<and> train_models_fit (np\<lparr>global_generator := g\<rparr>) sk x_train y_train =
     train_models_fit (np\<lparr>global_generator := g'\<rparr>) sk x_train y_train"
proof -
  have seed: "rfc_random_state rfc = Some 42"
    by (simp add: rfc_def)
  have solver: "lrc_solver lrc = lbfgs" "lrc_random_state lrc = None"
    by (simp_all add: lrc_def LogisticRegression_defaults_def)
  have draws: "\<not> solver_draws (lrc_solver lrc)"
    by (simp add: solver solver_draws_def)
  have logit: "LogisticRegression_fit (np\<lparr>global_generator := g\<rparr>) sk lrc x_train y_train =
               LogisticRegression_fit (np\<lparr>global_generator := g'\<rparr>) sk lrc x_train y_train"
    by (simp add: LogisticRegression_fit_def draws)
  have "train_models_fit (np\<lparr>global_generator := g\<rparr>) sk x_train y_train =
        train_models_fit (np\<lparr>global_generator := g'\<rparr>) sk x_train y_train"
    by (simp only: train_models_fit_def logit grid_search_seeded [OF seed, where g = g and g' = g'])
  with seed solver draws show ?thesis by simp
qed

end
